theory Spec2Isabelle
  imports Main
begin

section \<open>homebridge-pushbot: the device controller and its registry\<close>

text \<open>
  The repository holds two versions of the plugin: \<^verbatim>\<open>src/index.js\<close> (no notify
  characteristic, unacknowledged writes, an activation handler that gives up when
  the link is down) and \<^verbatim>\<open>src/unnamed/part_000\<close> (notify characteristic with a
  heartbeat, acknowledged writes, an activation handler that reconnects on demand).
  Definitions that embed \<^verbatim>\<open>src/index.js\<close> carry the suffix \<open>_index\<close>, those that
  embed \<^verbatim>\<open>src/unnamed/part_000\<close> the suffix \<open>_part0\<close>; a definition without suffix
  is the same text in both files, or (the heartbeat) exists in \<^verbatim>\<open>part_000\<close> only.

  An \<^verbatim>\<open>async\<close> function is embedded run to completion: the adapter's answers are
  given as arguments (an environment record, or a function from the attempt number
  to the answer), every external call and every delay is appended to a trace, and
  a rejected promise or a thrown error is a value of the result type. The connect
  sequence is also given in two halves, cut at its settle wait, for the one place
  where what runs during an \<^verbatim>\<open>await\<close> matters.
\<close>

subsection \<open>Constants (the \<^verbatim>\<open>CONFIG\<close> object)\<close>

definition SCAN_DURATION_MS :: nat where "SCAN_DURATION_MS = 4000"
definition RECONNECT_DELAY_MS_index :: nat where "RECONNECT_DELAY_MS_index = 15000"
definition RECONNECT_DELAY_MS_part0 :: nat where "RECONNECT_DELAY_MS_part0 = 5000"
definition HEART_BEAT_INTERVAL_MS :: nat where "HEART_BEAT_INTERVAL_MS = 15000"
definition GATT_WAIT_MS :: nat where "GATT_WAIT_MS = 2000"
definition WRITE_RETRY_COUNT :: nat where "WRITE_RETRY_COUNT = 3"
definition AUTO_OFF_MS :: nat where "AUTO_OFF_MS = 1500"

subsection \<open>Strings: case mapping, the address patterns, hex decoding\<close>

text \<open>
  Strings are ASCII byte strings. \<open>toLowerCase\<close> and \<open>toUpperCase\<close> map the 26
  letters and leave every other byte alone.
\<close>

definition toLowerCase_char :: "char \<Rightarrow> char" where
  "toLowerCase_char ch =
     (let n = (of_char ch :: nat) in if 65 \<le> n \<and> n \<le> 90 then char_of (n + 32) else ch)"

definition toUpperCase_char :: "char \<Rightarrow> char" where
  "toUpperCase_char ch =
     (let n = (of_char ch :: nat) in if 97 \<le> n \<and> n \<le> 122 then char_of (n - 32) else ch)"

definition toLowerCase :: "string \<Rightarrow> string" where
  "toLowerCase s = map toLowerCase_char s"

definition toUpperCase :: "string \<Rightarrow> string" where
  "toUpperCase s = map toUpperCase_char s"

text \<open>The character class \<^verbatim>\<open>[0-9a-f]\<close>.\<close>

definition is_lower_hex :: "char \<Rightarrow> bool" where
  "is_lower_hex ch =
     (let n = (of_char ch :: nat) in (48 \<le> n \<and> n \<le> 57) \<or> (97 \<le> n \<and> n \<le> 102))"

text \<open>\<^verbatim>\<open>s.replace(/[^0-9a-f]/g, '')\<close> and \<^verbatim>\<open>s.replace(/:/g, '')\<close>.\<close>

definition strip_non_hex :: "string \<Rightarrow> string" where
  "strip_non_hex s = filter is_lower_hex s"

definition strip_colons :: "string \<Rightarrow> string" where
  "strip_colons s = filter (\<lambda>ch. ch \<noteq> CHR '':'') s"

text \<open>
  \<^verbatim>\<open>Buffer.from(s, 'hex')\<close> of Node.js: two hex digits of either case give one byte,
  decoding stops at the first pair that is not two hex digits, and a trailing single
  character is dropped.
\<close>

type_synonym byte = nat

definition unhex :: "char \<Rightarrow> nat option" where
  "unhex ch =
     (let n = (of_char ch :: nat) in
      if 48 \<le> n \<and> n \<le> 57 then Some (n - 48)
      else if 97 \<le> n \<and> n \<le> 102 then Some (n - 87)
      else if 65 \<le> n \<and> n \<le> 70 then Some (n - 55)
      else None)"

fun hex_decode :: "string \<Rightarrow> byte list" where
  "hex_decode (a # b # rest) =
     (case unhex a of
        None \<Rightarrow> []
      | Some hi \<Rightarrow> (case unhex b of
                     None \<Rightarrow> []
                   | Some lo \<Rightarrow> (16 * hi + lo) # hex_decode rest))"
| "hex_decode _ = []"

subsection \<open>Errors, configuration, events\<close>

datatype js_error =
    TypeError
  | Rejected string

text \<open>
  One entry of \<^verbatim>\<open>config.devices\<close>. A field that the entry does not have reads as
  \<^verbatim>\<open>undefined\<close>: \<open>None\<close>.
\<close>

record device_config =
  name :: "string option"
  mac_address :: "string option"
  service_uuid :: "string option"
  write_uuid :: "string option"
  notify_uuid :: "string option"
  push_packet_hex :: "string option"

type_synonym handle = nat

datatype log_level = LInfo | LWarn | LError | LDebug

datatype log_msg =
    MsgRegistering "string option"
  | MsgBleInitFailed
  | MsgScanning
  | MsgScanError
  | MsgConnecting
  | MsgConnected
  | MsgLinkLost
  | MsgConnectFailed
  | MsgNotConnected
  | MsgReconnectNow
  | MsgSendStart
  | MsgSendRetry nat
  | MsgSendDone
  | MsgSendError
  | MsgControlFailed
  | MsgHeartbeatOn
  | MsgHeartbeatSkipped

text \<open>The \<^verbatim>\<open>type\<close> option of node-ble's \<^verbatim>\<open>writeValue\<close>: \<^verbatim>\<open>'request'\<close> is the
  acknowledged write, \<^verbatim>\<open>'command'\<close> the write without response.\<close>

datatype write_type = Request | Command

text \<open>The two \<^verbatim>\<open>setTimeout\<close> callbacks of the activation handler.\<close>

datatype timer_action = AutoOff | HostOffOnly

datatype event =
    Log log_level log_msg
  | Sleep nat
  | StopDiscovery
  | StartDiscovery
  | ListDevices
  | GetDevice string
  | DeviceConnect
  | DeviceGatt
  | GetPrimaryService string
  | GetCharacteristic string
  | StartNotifications
  | OnceDisconnect
  | WriteValue handle "byte list" write_type
  | ReadValue handle
  | SetTimeout nat timer_action
  | SetInterval nat nat
  | ClearInterval nat
  | UpdateCharacteristicOn bool

subsection \<open>The controller (\<^verbatim>\<open>PushBotAccessory\<close>)\<close>

text \<open>
  The fields of \<^verbatim>\<open>this\<close>, followed by the part of the world the controller acts on:
  the one-shot \<^verbatim>\<open>'disconnect'\<close> listeners it has registered and that have not fired,
  its pending timeouts, its running intervals, and the trace of its external calls.
  \<^verbatim>\<open>null\<close> and \<^verbatim>\<open>undefined\<close> are both \<open>None\<close> (the code only tests truthiness).
\<close>

record controller =
  displayName :: string
  macAddress :: string
  serviceUuid :: string
  writeUuid :: string
  notifyUuid :: "string option"
  pushCommand :: "byte list"
  isConnected :: bool
  isSwitchOn :: bool
  heartbeatTimer :: "nat option"
  writeChar :: "handle option"
  notifyChar :: "handle option"
  device :: "string option"
  adapter :: bool
  disconnectListeners :: nat
  timeouts :: "(nat \<times> timer_action) list"
  intervals :: "nat list"
  nextTimerId :: nat
  trace :: "event list"

datatype 'a outcome = Returned 'a controller | Threw js_error controller

definition emit :: "event \<Rightarrow> controller \<Rightarrow> controller" where
  "emit e c = c\<lparr>trace := trace c @ [e]\<rparr>"

definition events_since :: "controller \<Rightarrow> controller \<Rightarrow> event list" where
  "events_since c c' = drop (length (trace c)) (trace c')"

definition and_then :: "'a outcome \<Rightarrow> ('a \<Rightarrow> controller \<Rightarrow> 'b outcome) \<Rightarrow> 'b outcome" where
  "and_then r f = (case r of Returned x c \<Rightarrow> f x c | Threw e c \<Rightarrow> Threw e c)"

text \<open>\<^verbatim>\<open>await call()\<close>: the call is made, then its promise resolves or rejects.\<close>

definition await_call :: "event \<Rightarrow> js_error option \<Rightarrow> controller \<Rightarrow> unit outcome" where
  "await_call ev res c =
     (case res of None \<Rightarrow> Returned () (emit ev c) | Some e \<Rightarrow> Threw e (emit ev c))"

definition sleep :: "nat \<Rightarrow> controller \<Rightarrow> controller" where
  "sleep ms c = emit (Sleep ms) c"

definition setTimeout :: "nat \<Rightarrow> timer_action \<Rightarrow> controller \<Rightarrow> controller" where
  "setTimeout ms a c = emit (SetTimeout ms a) (c\<lparr>timeouts := timeouts c @ [(ms, a)]\<rparr>)"

definition clearInterval :: "nat \<Rightarrow> controller \<Rightarrow> controller" where
  "clearInterval t c = emit (ClearInterval t) (c\<lparr>intervals := removeAll t (intervals c)\<rparr>)"

subsection \<open>Construction\<close>

text \<open>
  \<^verbatim>\<open>config.name || 'PushBot'\<close> and \<^verbatim>\<open>(config.mac_address || '')\<close>: an absent field and
  the empty string are both falsy.
\<close>

definition name_or_default :: "string option \<Rightarrow> string" where
  "name_or_default n = (case n of None \<Rightarrow> ''PushBot'' | Some s \<Rightarrow> if s = [] then ''PushBot'' else s)"

definition normalize_mac :: "string option \<Rightarrow> string" where
  "normalize_mac m = strip_non_hex (toLowerCase (case m of None \<Rightarrow> [] | Some s \<Rightarrow> s))"

text \<open>
  The constructor of \<^verbatim>\<open>src/index.js\<close> (lines 38-54). \<^verbatim>\<open>(config.service_uuid).toLowerCase()\<close>
  and \<^verbatim>\<open>(config.write_uuid).toLowerCase()\<close> throw a TypeError on \<^verbatim>\<open>undefined\<close>, and so
  does \<^verbatim>\<open>Buffer.from(undefined, 'hex')\<close>. \<^verbatim>\<open>initService\<close> only talks to the host
  (it creates the switch service and registers \<^verbatim>\<open>handleSetOn\<close> and the getter of
  \<^verbatim>\<open>isSwitchOn\<close>); \<^verbatim>\<open>initNodeBle\<close> is asynchronous and is an operation of its own below.
\<close>

definition constructor_index :: "device_config \<Rightarrow> js_error + controller" where
  "constructor_index cfg =
     (case service_uuid cfg of
        None \<Rightarrow> Inl TypeError
      | Some su \<Rightarrow>
     (case write_uuid cfg of
        None \<Rightarrow> Inl TypeError
      | Some wu \<Rightarrow>
     (case push_packet_hex cfg of
        None \<Rightarrow> Inl TypeError
      | Some hex \<Rightarrow>
          Inr \<lparr> displayName = name_or_default (name cfg),
                macAddress = normalize_mac (mac_address cfg),
                serviceUuid = toLowerCase su,
                writeUuid = toLowerCase wu,
                notifyUuid = None,
                pushCommand = hex_decode hex,
                isConnected = False,
                isSwitchOn = False,
                heartbeatTimer = None,
                writeChar = None,
                notifyChar = None,
                device = None,
                adapter = False,
                disconnectListeners = 0,
                timeouts = [],
                intervals = [],
                nextTimerId = 0,
                trace = [] \<rparr>)))"

text \<open>
  The constructor of \<^verbatim>\<open>src/unnamed/part_000\<close> (lines 42-61): as above, and
  \<^verbatim>\<open>(config.notify_uuid).toLowerCase()\<close> between the write id and the packet.
\<close>

definition constructor_part0 :: "device_config \<Rightarrow> js_error + controller" where
  "constructor_part0 cfg =
     (case service_uuid cfg of
        None \<Rightarrow> Inl TypeError
      | Some su \<Rightarrow>
     (case write_uuid cfg of
        None \<Rightarrow> Inl TypeError
      | Some wu \<Rightarrow>
     (case notify_uuid cfg of
        None \<Rightarrow> Inl TypeError
      | Some nu \<Rightarrow>
     (case push_packet_hex cfg of
        None \<Rightarrow> Inl TypeError
      | Some hex \<Rightarrow>
          Inr \<lparr> displayName = name_or_default (name cfg),
                macAddress = normalize_mac (mac_address cfg),
                serviceUuid = toLowerCase su,
                writeUuid = toLowerCase wu,
                notifyUuid = Some (toLowerCase nu),
                pushCommand = hex_decode hex,
                isConnected = False,
                isSwitchOn = False,
                heartbeatTimer = None,
                writeChar = None,
                notifyChar = None,
                device = None,
                adapter = False,
                disconnectListeners = 0,
                timeouts = [],
                intervals = [],
                nextTimerId = 0,
                trace = [] \<rparr>))))"

text \<open>\<^verbatim>\<open>initNodeBle\<close>: the argument is the answer of \<^verbatim>\<open>bluetooth.defaultAdapter()\<close>. On
  success the scanning loop starts; on failure one line is logged and it never does.\<close>

definition initNodeBle :: "js_error option \<Rightarrow> controller \<Rightarrow> controller" where
  "initNodeBle res c =
     (case res of
        None \<Rightarrow> c\<lparr>adapter := True\<rparr>
      | Some e \<Rightarrow> emit (Log LError MsgBleInitFailed) c)"

subsection \<open>The registry (\<^verbatim>\<open>PushBotPlatform.discoverDevices\<close>)\<close>

record registry =
  platform_log :: "event list"
  controllers :: "controller list"
  registered :: "string option list"
  thrown :: "js_error option"

definition empty_registry :: registry where
  "empty_registry = \<lparr> platform_log = [], controllers = [], registered = [], thrown = None \<rparr>"

text \<open>The \<^verbatim>\<open>for ... of\<close> loop of \<^verbatim>\<open>src/index.js\<close> (lines 30-33): there is no \<^verbatim>\<open>try\<close>
  around the body, so a throwing constructor ends the loop and the call.\<close>

fun register_devices_index :: "device_config list \<Rightarrow> registry \<Rightarrow> registry" where
  "register_devices_index [] r = r"
| "register_devices_index (cfg # rest) r =
     (let r1 = r\<lparr>platform_log := platform_log r @ [Log LInfo (MsgRegistering (name cfg))]\<rparr> in
      case constructor_index cfg of
        Inl e \<Rightarrow> r1\<lparr>thrown := Some e\<rparr>
      | Inr c \<Rightarrow> register_devices_index rest (r1\<lparr>controllers := controllers r1 @ [c]\<rparr>))"

text \<open>\<^verbatim>\<open>config.devices\<close> that is absent or not an array is \<open>None\<close>.\<close>

definition discoverDevices_index :: "device_config list option \<Rightarrow> registry" where
  "discoverDevices_index devs =
     (case devs of None \<Rightarrow> empty_registry | Some ds \<Rightarrow> register_devices_index ds empty_registry)"

text \<open>
  The loop of \<^verbatim>\<open>src/unnamed/part_000\<close> (lines 30-37). The first argument is the answer
  of the host for lines 33-34 (\<^verbatim>\<open>hap.uuid.generate\<close> and \<^verbatim>\<open>new platformAccessory\<close>), which
  are not code of this repository: \<open>None\<close> when both return.
\<close>

fun register_devices_part0 ::
  "(device_config \<Rightarrow> js_error option) \<Rightarrow> device_config list \<Rightarrow> registry \<Rightarrow> registry" where
  "register_devices_part0 host [] r = r"
| "register_devices_part0 host (cfg # rest) r =
     (let r1 = r\<lparr>platform_log := platform_log r @ [Log LInfo (MsgRegistering (name cfg))]\<rparr> in
      case host cfg of
        Some e \<Rightarrow> r1\<lparr>thrown := Some e\<rparr>
      | None \<Rightarrow>
     (case constructor_part0 cfg of
        Inl e \<Rightarrow> r1\<lparr>thrown := Some e\<rparr>
      | Inr c \<Rightarrow> register_devices_part0 host rest
                 (r1\<lparr>controllers := controllers r1 @ [c],
                     registered := registered r1 @ [name cfg]\<rparr>)))"

definition discoverDevices_part0 ::
  "(device_config \<Rightarrow> js_error option) \<Rightarrow> device_config list option \<Rightarrow> registry" where
  "discoverDevices_part0 host devs =
     (case devs of None \<Rightarrow> empty_registry
      | Some ds \<Rightarrow> register_devices_part0 host ds empty_registry)"

subsection \<open>The connect sequence (\<^verbatim>\<open>connectDevice\<close>)\<close>

text \<open>The answers of the device to one run of the connect sequence: \<open>None\<close> is a
  promise that resolves, \<open>Some e\<close> one that rejects with \<open>e\<close>.\<close>

record ble_env =
  connect_res :: "js_error option"
  gatt_res :: "js_error option"
  service_res :: "js_error option"
  writeChar_res :: "js_error + handle"
  notifyChar_res :: "js_error + handle"
  startNotifications_res :: "js_error option"

text \<open>
  Up to the settle wait (index.js 109-113, part_000 116-120): the log line,
  \<^verbatim>\<open>await this.device.connect()\<close> (a TypeError when \<^verbatim>\<open>this.device\<close> is undefined),
  \<^verbatim>\<open>this.isConnected = true\<close>, \<^verbatim>\<open>await this.device.gatt()\<close>.
\<close>

definition connect_begin :: "ble_env \<Rightarrow> controller \<Rightarrow> unit outcome" where
  "connect_begin env c =
     (let c1 = emit (Log LInfo MsgConnecting) c in
      case device c1 of
        None \<Rightarrow> Threw TypeError c1
      | Some d \<Rightarrow>
          and_then (await_call DeviceConnect (connect_res env) c1) (\<lambda>_ c2.
            await_call DeviceGatt (gatt_res env) (c2\<lparr>isConnected := True\<rparr>)))"

text \<open>After the settle wait (index.js 116-117, part_000 123-124): the service, then
  \<^verbatim>\<open>this.writeChar = await service.getCharacteristic(this.writeUuid)\<close>.\<close>

definition connect_resolve :: "ble_env \<Rightarrow> controller \<Rightarrow> unit outcome" where
  "connect_resolve env c =
     and_then (await_call (GetPrimaryService (serviceUuid c)) (service_res env) c) (\<lambda>_ c1.
       case writeChar_res env of
         Inl e \<Rightarrow> Threw e (emit (GetCharacteristic (writeUuid c1)) c1)
       | Inr h \<Rightarrow> Returned () ((emit (GetCharacteristic (writeUuid c1)) c1)\<lparr>writeChar := Some h\<rparr>))"

text \<open>\<^verbatim>\<open>this.device.once('disconnect', ...)\<close>: one more listener that has not fired.\<close>

definition once_disconnect :: "controller \<Rightarrow> controller" where
  "once_disconnect c = emit OnceDisconnect (c\<lparr>disconnectListeners := Suc (disconnectListeners c)\<rparr>)"

definition connect_try_index :: "ble_env \<Rightarrow> controller \<Rightarrow> unit outcome" where
  "connect_try_index env c =
     and_then (connect_begin env c) (\<lambda>_ c1.
     and_then (connect_resolve env (sleep GATT_WAIT_MS c1)) (\<lambda>_ c2.
       Returned () (once_disconnect (emit (Log LInfo MsgConnected) c2))))"

text \<open>index.js 107-130: the \<^verbatim>\<open>catch\<close> logs, clears \<^verbatim>\<open>isConnected\<close> and swallows the error.\<close>

definition connectDevice_index :: "ble_env \<Rightarrow> controller \<Rightarrow> unit outcome" where
  "connectDevice_index env c =
     (case connect_try_index env c of
        Returned u c' \<Rightarrow> Returned () c'
      | Threw e c' \<Rightarrow> Returned () ((emit (Log LError MsgConnectFailed) c')\<lparr>isConnected := False\<rparr>))"

text \<open>part_000 191-200. \<^verbatim>\<open>clearInterval\<close> does not reset \<^verbatim>\<open>this.heartbeatTimer\<close>.\<close>

definition startHeartbeat :: "controller \<Rightarrow> controller" where
  "startHeartbeat c =
     (let c1 = (case heartbeatTimer c of None \<Rightarrow> c | Some t \<Rightarrow> clearInterval t c);
          n = nextTimerId c1
      in emit (SetInterval n HEART_BEAT_INTERVAL_MS)
           (c1\<lparr>heartbeatTimer := Some n, intervals := intervals c1 @ [n], nextTimerId := Suc n\<rparr>))"

text \<open>The interval's callback (part_000 193-199): a read whose failure is swallowed.\<close>

definition heartbeat_tick :: "js_error option \<Rightarrow> controller \<Rightarrow> controller" where
  "heartbeat_tick res c =
     (if isConnected c then
        (case notifyChar c of None \<Rightarrow> c | Some h \<Rightarrow> emit (ReadValue h) c)
      else c)"

text \<open>part_000 125-132: the inner \<^verbatim>\<open>try\<close> around the notify characteristic.\<close>

definition connect_notify_part0 :: "ble_env \<Rightarrow> controller \<Rightarrow> controller" where
  "connect_notify_part0 env c =
     (let c1 = emit (GetCharacteristic (case notifyUuid c of None \<Rightarrow> [] | Some u \<Rightarrow> u)) c in
      case notifyChar_res env of
        Inl e \<Rightarrow> emit (Log LWarn MsgHeartbeatSkipped) c1
      | Inr h \<Rightarrow>
         (case await_call StartNotifications (startNotifications_res env) (c1\<lparr>notifyChar := Some h\<rparr>) of
            Threw e c2 \<Rightarrow> emit (Log LWarn MsgHeartbeatSkipped) c2
          | Returned u c2 \<Rightarrow> emit (Log LDebug MsgHeartbeatOn) (startHeartbeat c2)))"

definition connect_try_part0 :: "ble_env \<Rightarrow> controller \<Rightarrow> unit outcome" where
  "connect_try_part0 env c =
     and_then (connect_begin env c) (\<lambda>_ c1.
     and_then (connect_resolve env (sleep GATT_WAIT_MS c1)) (\<lambda>_ c2.
       Returned () (once_disconnect (emit (Log LInfo MsgConnected) (connect_notify_part0 env c2)))))"

text \<open>part_000 114-146: the \<^verbatim>\<open>catch\<close> clears \<^verbatim>\<open>isConnected\<close> and throws the error again.\<close>

definition connectDevice_part0 :: "ble_env \<Rightarrow> controller \<Rightarrow> unit outcome" where
  "connectDevice_part0 env c =
     (case connect_try_part0 env c of
        Returned u c' \<Rightarrow> Returned () c'
      | Threw e c' \<Rightarrow> Threw e (c'\<lparr>isConnected := False\<rparr>))"

text \<open>
  The same sequence cut at its settle wait (part_000 121), where the function is
  suspended for \<open>GATT_WAIT_MS\<close> and other callbacks of the controller can run: what
  it does before the wait, and what it does when the wait is over, each with the
  \<^verbatim>\<open>catch\<close> around it.
\<close>

definition connect_until_settle_part0 :: "ble_env \<Rightarrow> controller \<Rightarrow> unit outcome" where
  "connect_until_settle_part0 env c =
     (case connect_begin env c of
        Returned u c' \<Rightarrow> Returned () c'
      | Threw e c' \<Rightarrow> Threw e (c'\<lparr>isConnected := False\<rparr>))"

definition connect_after_settle_part0 :: "ble_env \<Rightarrow> controller \<Rightarrow> unit outcome" where
  "connect_after_settle_part0 env c =
     (case and_then (connect_resolve env (sleep GATT_WAIT_MS c)) (\<lambda>_ c2.
             Returned () (once_disconnect (emit (Log LInfo MsgConnected) (connect_notify_part0 env c2)))) of
        Returned u c' \<Rightarrow> Returned () c'
      | Threw e c' \<Rightarrow> Threw e (c'\<lparr>isConnected := False\<rparr>))"

subsection \<open>The disconnect observer\<close>

definition on_disconnect_index :: "controller \<Rightarrow> controller" where
  "on_disconnect_index c = (emit (Log LWarn MsgLinkLost) c)\<lparr>isConnected := False, writeChar := None\<rparr>"

definition on_disconnect_part0 :: "controller \<Rightarrow> controller" where
  "on_disconnect_part0 c =
     (let c1 = (emit (Log LWarn MsgLinkLost) c)\<lparr>isConnected := False, writeChar := None\<rparr> in
      case heartbeatTimer c1 of None \<Rightarrow> c1 | Some t \<Rightarrow> clearInterval t c1)"

text \<open>
  The device emits \<^verbatim>\<open>'disconnect'\<close>: every listener registered with \<^verbatim>\<open>once\<close> and not
  yet fired runs and is removed. With no listener nothing runs.
\<close>

definition device_emits_disconnect :: "(controller \<Rightarrow> controller) \<Rightarrow> controller \<Rightarrow> controller" where
  "device_emits_disconnect callback c =
     (callback ^^ disconnectListeners c) (c\<lparr>disconnectListeners := 0\<rparr>)"

subsection \<open>The activation handler (\<^verbatim>\<open>handleSetOn\<close>)\<close>

text \<open>
  \<^verbatim>\<open>await this.writeChar.writeValue(this.pushCommand, { type })\<close>; a TypeError when
  \<^verbatim>\<open>this.writeChar\<close> is null, before any call is made.
\<close>

definition writeValue :: "write_type \<Rightarrow> js_error option \<Rightarrow> controller \<Rightarrow> unit outcome" where
  "writeValue ty res c =
     (case writeChar c of
        None \<Rightarrow> Threw TypeError c
      | Some h \<Rightarrow> await_call (WriteValue h (pushCommand c) ty) res c)"

text \<open>
  The retry loop (index.js 148-157, part_000 164-173), from iteration \<open>i\<close>; \<open>w i\<close>
  is the device's answer to the write of iteration \<open>i\<close>. The result is the local
  \<^verbatim>\<open>success\<close>.
\<close>

function write_loop ::
  "write_type \<Rightarrow> (nat \<Rightarrow> js_error option) \<Rightarrow> nat \<Rightarrow> controller \<Rightarrow> bool outcome" where
  "write_loop ty w i c =
     (if i < WRITE_RETRY_COUNT then
        (case writeValue ty (w i) c of
           Returned u c' \<Rightarrow> Returned True c'
         | Threw err c' \<Rightarrow>
             write_loop ty w (i + 1) (sleep 500 (emit (Log LWarn (MsgSendRetry (i + 1))) c')))
      else Returned False c)"
  by pat_completeness auto
termination
  by (relation "measure (\<lambda>(ty, w, i, c). WRITE_RETRY_COUNT - i)") auto

text \<open>index.js 132-172.\<close>

definition handleSetOn_index ::
  "bool \<Rightarrow> (nat \<Rightarrow> js_error option) \<Rightarrow> controller \<Rightarrow> unit outcome" where
  "handleSetOn_index v w c =
     (if v then
        (if \<not> isConnected c \<or> writeChar c = None then
           Returned () (setTimeout 500 HostOffOnly (emit (Log LWarn MsgNotConnected) c))
         else
           (let c1 = emit (Log LInfo MsgSendStart) c;
                c2 = (case and_then (write_loop Command w 0 c1) (\<lambda>success c'.
                             Returned ()
                               (if success
                                then (emit (Log LInfo MsgSendDone) c')\<lparr>isSwitchOn := True\<rparr>
                                else c')) of
                        Returned u c' \<Rightarrow> c'
                      | Threw e c' \<Rightarrow> emit (Log LError MsgSendError) c')
            in Returned () (setTimeout AUTO_OFF_MS AutoOff c2)))
      else Returned () c)"

text \<open>part_000 148-189.\<close>

definition handleSetOn_part0 ::
  "bool \<Rightarrow> ble_env \<Rightarrow> (nat \<Rightarrow> js_error option) \<Rightarrow> controller \<Rightarrow> unit outcome" where
  "handleSetOn_part0 v env w c =
     (if \<not> v then Returned () c
      else
        (let c4 =
           (case
              and_then
                (if \<not> isConnected c \<or> writeChar c = None
                 then connectDevice_part0 env (emit (Log LInfo MsgReconnectNow) c)
                 else Returned () c) (\<lambda>_ c1.
              and_then
                (write_loop Request w 0
                   (sleep 300 (emit (Log LInfo MsgSendStart)
                      (case heartbeatTimer c1 of None \<Rightarrow> c1 | Some t \<Rightarrow> clearInterval t c1))))
                (\<lambda>success c2.
                   Returned ()
                     (startHeartbeat
                        (if success
                         then (emit (Log LInfo MsgSendDone) c2)\<lparr>isSwitchOn := True\<rparr>
                         else c2)))) of
              Returned u c3 \<Rightarrow> c3
            | Threw e c3 \<Rightarrow> emit (Log LError MsgControlFailed) c3)
         in Returned () (setTimeout AUTO_OFF_MS AutoOff c4)))"

text \<open>The callbacks given to \<^verbatim>\<open>setTimeout\<close>: index.js 167-170 and part_000 185-188
  (\<open>AutoOff\<close>), index.js 138-140 (\<open>HostOffOnly\<close>).\<close>

definition run_timer :: "timer_action \<Rightarrow> controller \<Rightarrow> controller" where
  "run_timer a c =
     (case a of
        AutoOff \<Rightarrow> emit (UpdateCharacteristicOn False) (c\<lparr>isSwitchOn := False\<rparr>)
      | HostOffOnly \<Rightarrow> emit (UpdateCharacteristicOn False) c)"

text \<open>The \<open>k\<close>-th pending timeout comes due: it leaves the list and its callback runs.\<close>

definition fire_timeout :: "nat \<Rightarrow> controller \<Rightarrow> controller" where
  "fire_timeout k c =
     (if k < length (timeouts c)
      then run_timer (snd (timeouts c ! k)) (c\<lparr>timeouts := take k (timeouts c) @ drop (Suc k) (timeouts c)\<rparr>)
      else c)"

subsection \<open>The discovery loop (\<^verbatim>\<open>startScanningLoop\<close>)\<close>

text \<open>The comparison of index.js 93 and part_000 100:
  \<^verbatim>\<open>addr.toUpperCase().replace(/:/g, '') === this.macAddress.toUpperCase()\<close>.\<close>

definition address_matches :: "string \<Rightarrow> string \<Rightarrow> bool" where
  "address_matches addr mac = (strip_colons (toUpperCase addr) = toUpperCase mac)"

text \<open>The \<^verbatim>\<open>for ... of\<close> loop stops at the first address that matches.\<close>

fun first_match :: "string \<Rightarrow> string list \<Rightarrow> string option" where
  "first_match mac [] = None"
| "first_match mac (addr # rest) =
     (if address_matches addr mac then Some addr else first_match mac rest)"

text \<open>The answers of the adapter to one round of the loop.\<close>

record scan_env =
  stop_before_res :: "js_error option"
  start_res :: "js_error option"
  stop_after_res :: "js_error option"
  devices_res :: "js_error + string list"
  getDevice_res :: "js_error option"
  connect_env :: ble_env

text \<open>
  The body of the \<^verbatim>\<open>try\<close> up to the call of \<^verbatim>\<open>connectDevice\<close> (index.js 85-94,
  part_000 92-101). The first \<^verbatim>\<open>stopDiscovery\<close> has a \<^verbatim>\<open>catch\<close> of its own that ignores
  the error, so its answer is not read. The result says whether an address matched
  and \<^verbatim>\<open>this.device\<close> was set.
\<close>

definition scan_find :: "scan_env \<Rightarrow> controller \<Rightarrow> bool outcome" where
  "scan_find env c =
     (let c1 = emit StopDiscovery (emit (Log LInfo MsgScanning) c) in
      and_then (await_call StartDiscovery (start_res env) c1) (\<lambda>_ c2.
      and_then (await_call StopDiscovery (stop_after_res env) (sleep SCAN_DURATION_MS c2)) (\<lambda>_ c3.
        case devices_res env of
          Inl e \<Rightarrow> Threw e (emit ListDevices c3)
        | Inr addrs \<Rightarrow>
           (case first_match (macAddress c3) addrs of
              None \<Rightarrow> Returned False (emit ListDevices c3)
            | Some addr \<Rightarrow>
                and_then (await_call (GetDevice addr) (getDevice_res env) (emit ListDevices c3))
                  (\<lambda>_ c4. Returned True (c4\<lparr>device := Some addr\<rparr>))))))"

text \<open>The whole body of the \<^verbatim>\<open>try\<close> (index.js 85-98, part_000 92-105); the first
  argument is the file's \<^verbatim>\<open>connectDevice\<close>.\<close>

definition scan_try ::
  "(ble_env \<Rightarrow> controller \<Rightarrow> unit outcome) \<Rightarrow> scan_env \<Rightarrow> controller \<Rightarrow> unit outcome" where
  "scan_try connectDevice env c =
     and_then (scan_find env c) (\<lambda>found c'.
       if found then connectDevice (connect_env env) c' else Returned () c')"

text \<open>One round of the \<^verbatim>\<open>while (true)\<close> (index.js 83-103, part_000 90-110).\<close>

definition scan_round ::
  "(ble_env \<Rightarrow> controller \<Rightarrow> unit outcome) \<Rightarrow> nat \<Rightarrow> scan_env \<Rightarrow> controller \<Rightarrow> controller" where
  "scan_round connectDevice delay env c =
     sleep delay
       (if \<not> isConnected c then
          (case scan_try connectDevice env c of
             Returned u c' \<Rightarrow> c'
           | Threw e c' \<Rightarrow> emit (Log LError MsgScanError) c')
        else c)"

text \<open>
  The loop never ends; what is embedded is any finite number of its rounds, one
  for each element of the list of the adapter's answers.
\<close>

fun startScanningLoop_index :: "scan_env list \<Rightarrow> controller \<Rightarrow> controller" where
  "startScanningLoop_index [] c = c"
| "startScanningLoop_index (env # envs) c =
     startScanningLoop_index envs (scan_round connectDevice_index RECONNECT_DELAY_MS_index env c)"

fun startScanningLoop_part0 :: "scan_env list \<Rightarrow> controller \<Rightarrow> controller" where
  "startScanningLoop_part0 [] c = c"
| "startScanningLoop_part0 (env # envs) c =
     startScanningLoop_part0 envs (scan_round connectDevice_part0 RECONNECT_DELAY_MS_part0 env c)"

subsection \<open>The controller's operations, one at a time\<close>

text \<open>
  What can happen to a controller after its construction, each operation run to its
  end before the next starts: the adapter initialises, the loop makes a round (once
  the adapter is there), the device emits \<^verbatim>\<open>'disconnect'\<close>, the host sets the switch,
  a pending timeout comes due, the heartbeat interval ticks.
\<close>

datatype op =
    InitBle "js_error option"
  | ScanRound scan_env
  | DeviceDisconnect
  | SetOn bool ble_env "nat \<Rightarrow> js_error option"
  | TimeoutDue nat
  | HeartbeatTick "js_error option"

definition state_of :: "'a outcome \<Rightarrow> controller" where
  "state_of r = (case r of Returned u c \<Rightarrow> c | Threw e c \<Rightarrow> c)"

definition apply_op_index :: "op \<Rightarrow> controller \<Rightarrow> controller" where
  "apply_op_index o' c =
     (case o' of
        InitBle res \<Rightarrow> initNodeBle res c
      | ScanRound env \<Rightarrow>
          (if adapter c then scan_round connectDevice_index RECONNECT_DELAY_MS_index env c else c)
      | DeviceDisconnect \<Rightarrow> device_emits_disconnect on_disconnect_index c
      | SetOn v env w \<Rightarrow> state_of (handleSetOn_index v w c)
      | TimeoutDue k \<Rightarrow> fire_timeout k c
      | HeartbeatTick res \<Rightarrow> c)"

definition apply_op_part0 :: "op \<Rightarrow> controller \<Rightarrow> controller" where
  "apply_op_part0 o' c =
     (case o' of
        InitBle res \<Rightarrow> initNodeBle res c
      | ScanRound env \<Rightarrow>
          (if adapter c then scan_round connectDevice_part0 RECONNECT_DELAY_MS_part0 env c else c)
      | DeviceDisconnect \<Rightarrow> device_emits_disconnect on_disconnect_part0 c
      | SetOn v env w \<Rightarrow> state_of (handleSetOn_part0 v env w c)
      | TimeoutDue k \<Rightarrow> fire_timeout k c
      | HeartbeatTick res \<Rightarrow> heartbeat_tick res c)"

fun run_index :: "op list \<Rightarrow> controller \<Rightarrow> controller" where
  "run_index [] c = c"
| "run_index (x # xs) c = run_index xs (apply_op_index x c)"

fun run_part0 :: "op list \<Rightarrow> controller \<Rightarrow> controller" where
  "run_part0 [] c = c"
| "run_part0 (x # xs) c = run_part0 xs (apply_op_part0 x c)"

subsection \<open>Reading a trace\<close>

definition is_write :: "event \<Rightarrow> bool" where
  "is_write e = (case e of WriteValue h b t \<Rightarrow> True | _ \<Rightarrow> False)"

definition write_or_backoff :: "event \<Rightarrow> bool" where
  "write_or_backoff e = (case e of WriteValue h b t \<Rightarrow> True | Sleep ms \<Rightarrow> ms = 500 | _ \<Rightarrow> False)"

text \<open>How many of the writes fail before the first one that succeeds, at most the
  retry count.\<close>

definition failed_attempts :: "(nat \<Rightarrow> js_error option) \<Rightarrow> nat" where
  "failed_attempts w = length (takeWhile (\<lambda>i. w i \<noteq> None) [0..<WRITE_RETRY_COUNT])"

text \<open>\<open>k\<close> failed writes, each followed by the 500 ms delay, then the write that
  succeeds if the budget was not used up.\<close>

definition attempts_expected :: "event \<Rightarrow> nat \<Rightarrow> event list" where
  "attempts_expected wr k =
     concat (replicate k [wr, Sleep 500]) @ (if k < WRITE_RETRY_COUNT then [wr] else [])"

definition retry_discipline ::
  "write_type \<Rightarrow> handle \<Rightarrow> (nat \<Rightarrow> js_error option) \<Rightarrow> controller \<Rightarrow> controller \<Rightarrow> bool" where
  "retry_discipline ty h w c c' =
     (let ws = filter write_or_backoff (events_since c c'); k = failed_attempts w in
        length (filter is_write ws) \<le> WRITE_RETRY_COUNT
      \<and> ws = attempts_expected (WriteValue h (pushCommand c) ty) k
      \<and> (k < WRITE_RETRY_COUNT \<longrightarrow> isSwitchOn c')
      \<and> (w 0 \<noteq> None \<and> w 1 \<noteq> None \<and> w 2 = None \<longrightarrow>
           length (filter is_write ws) = 3 \<and> isSwitchOn c'))"

subsection \<open>A configured device and a cooperative adapter\<close>

definition demo_config :: device_config where
  "demo_config = \<lparr> name = Some ''Bot'', mac_address = Some ''AA:BB:CC:DD:EE:FF'',
      service_uuid = Some ''FFF0'', write_uuid = Some ''FFF1'', notify_uuid = Some ''FFF2'',
      push_packet_hex = Some ''0102030f'' \<rparr>"

definition demo_ble :: ble_env where
  "demo_ble = \<lparr> connect_res = None, gatt_res = None, service_res = None,
      writeChar_res = Inr 1, notifyChar_res = Inr 2, startNotifications_res = None \<rparr>"

definition demo_scan :: scan_env where
  "demo_scan = \<lparr> stop_before_res = None, start_res = None, stop_after_res = None,
      devices_res = Inr [''11:22:33:44:55:66'', ''AA:BB:CC:DD:EE:FF''], getDevice_res = None,
      connect_env = demo_ble \<rparr>"

text \<open>The controller of each file after construction, adapter start and one round
  of the loop that finds and connects the device.\<close>

definition connected_index :: controller where
  "connected_index =
     run_index [InitBle None, ScanRound demo_scan] (projr (constructor_index demo_config))"

definition connected_part0 :: controller where
  "connected_part0 =
     run_part0 [InitBle None, ScanRound demo_scan] (projr (constructor_part0 demo_config))"

definition fails_twice :: "nat \<Rightarrow> js_error option" where
  "fails_twice i = (if i < 2 then Some (Rejected ''busy'') else None)"

definition always_fails :: "nat \<Rightarrow> js_error option" where
  "always_fails i = Some (Rejected ''busy'')"

subsection \<open>The properties, as predicates on states and traces\<close>

text \<open>A write event that carries the given bytes and has the given type.\<close>

definition write_ok :: "write_type \<Rightarrow> byte list \<Rightarrow> event \<Rightarrow> bool" where
  "write_ok ty bytes e = (case e of WriteValue h b t \<Rightarrow> b = bytes \<and> t = ty | _ \<Rightarrow> True)"

definition packet_inv :: "write_type \<Rightarrow> byte list \<Rightarrow> controller \<Rightarrow> bool" where
  "packet_inv ty bytes c = (pushCommand c = bytes \<and> list_all (write_ok ty bytes) (trace c))"

text \<open>Construction, adapter start, a round that connects, then an activation whose
  first two writes fail.\<close>

definition demo_ops :: "op list" where
  "demo_ops = [InitBle None, ScanRound demo_scan, SetOn True demo_ble fails_twice]"

definition pushed_index :: controller where
  "pushed_index = run_index demo_ops (projr (constructor_index demo_config))"

definition pushed_part0 :: controller where
  "pushed_part0 = run_part0 demo_ops (projr (constructor_part0 demo_config))"

text \<open>
  After the handler the auto-off timeout is the newest pending one and the last call
  made; when it comes due, \<open>isSwitchOn\<close> is false and \<open>false\<close> is pushed to the host.
\<close>

definition auto_off_scheduled :: "controller \<Rightarrow> controller \<Rightarrow> bool" where
  "auto_off_scheduled c c' =
     (timeouts c' = timeouts c @ [(1500, AutoOff)]
      \<and> last (trace c') = SetTimeout 1500 AutoOff
      \<and> (let c'' = fire_timeout (length (timeouts c)) c' in
           \<not> isSwitchOn c'' \<and> events_since c' c'' = [UpdateCharacteristicOn False]
           \<and> timeouts c'' = timeouts c))"

text \<open>The handler returns (it does not throw), it leaves \<open>isSwitchOn\<close> as it was, and
  \<open>isSwitchOn\<close> is false once the timeout it scheduled has come due.\<close>

definition stays_off :: "controller \<Rightarrow> unit outcome \<Rightarrow> bool" where
  "stays_off c r =
     (r = Returned () (state_of r)
      \<and> isSwitchOn (state_of r) = isSwitchOn c
      \<and> \<not> isSwitchOn (fire_timeout (length (timeouts c)) (state_of r)))"

text \<open>
  What \<^verbatim>\<open>src/unnamed/part_000\<close> does with an activation request on a controller without a
  live link: it logs, runs the connect sequence, and then either goes on exactly as
  it does for the connected controller that the sequence left, or (the sequence
  threw) logs the failure and schedules the auto-off, with no write made and
  \<open>isSwitchOn\<close> untouched.
\<close>

definition reconnects_first :: "ble_env \<Rightarrow> (nat \<Rightarrow> js_error option) \<Rightarrow> controller \<Rightarrow> bool" where
  "reconnects_first env w c =
     (let r = handleSetOn_part0 True env w c in
      case connectDevice_part0 env (emit (Log LInfo MsgReconnectNow) c) of
        Returned u c2 \<Rightarrow>
          isConnected c2 \<and> writeChar c2 \<noteq> None \<and> r = handleSetOn_part0 True env w c2
      | Threw e c2 \<Rightarrow>
          r = Returned () (setTimeout AUTO_OFF_MS AutoOff (emit (Log LError MsgControlFailed) c2))
          \<and> filter is_write (events_since c (state_of r)) = []
          \<and> isSwitchOn (state_of r) = isSwitchOn c)"

text \<open>
  What \<^verbatim>\<open>src/index.js\<close> does with it: a warning, a timeout of 500 ms that pushes
  \<open>false\<close> to the host, and nothing else.
\<close>

definition gives_up :: "(nat \<Rightarrow> js_error option) \<Rightarrow> controller \<Rightarrow> bool" where
  "gives_up w c =
     (let r = handleSetOn_index True w c in
        r = Returned () (state_of r)
      \<and> events_since c (state_of r) = [Log LWarn MsgNotConnected, SetTimeout 500 HostOffOnly]
      \<and> isSwitchOn (state_of r) = isSwitchOn c)"

text \<open>The connected controllers after the device has dropped the link, and a device
  that is out of range.\<close>

definition dropped_index :: controller where
  "dropped_index = run_index [DeviceDisconnect] connected_index"

definition dropped_part0 :: controller where
  "dropped_part0 = run_part0 [DeviceDisconnect] connected_part0"

definition unreachable_ble :: ble_env where
  "unreachable_ble = demo_ble\<lparr>connect_res := Some (Rejected ''le-connection-abort-by-local'')\<rparr>"

text \<open>A hex digit of either case, and an address written with hex digits and colons
  only (the form in which the adapter reports the addresses it has seen).\<close>

definition is_hex_digit :: "char \<Rightarrow> bool" where
  "is_hex_digit ch = (unhex ch \<noteq> None)"

definition colon_separated :: "string \<Rightarrow> bool" where
  "colon_separated s = list_all (\<lambda>ch. is_hex_digit ch \<or> ch = CHR '':'') s"

text \<open>
  Between two operations the three views of the link agree: the flag, the write
  handle, and the one listener that a completed connect sequence leaves behind.
\<close>

definition link_inv :: "controller \<Rightarrow> bool" where
  "link_inv c =
     ((isConnected c \<longleftrightarrow> writeChar c \<noteq> None)
      \<and> disconnectListeners c = (if isConnected c then 1 else 0))"

text \<open>The write handle is set only while the flag is, and the disconnect callback
  clears both.\<close>

definition handle_only_while_connected :: "(controller \<Rightarrow> controller) \<Rightarrow> controller \<Rightarrow> bool" where
  "handle_only_while_connected callback s =
     ((writeChar s \<noteq> None \<longrightarrow> isConnected s)
      \<and> \<not> isConnected (callback s) \<and> writeChar (callback s) = None)"

text \<open>
  An activation request that arrives inside a connect sequence of the loop
  (part_000): the loop has found the device and its \<^verbatim>\<open>connectDevice\<close> is suspended in
  the settle wait, with \<^verbatim>\<open>isConnected\<close> already true and no write handle yet; the
  handler therefore starts a connect sequence of its own, whose \<^verbatim>\<open>connect()\<close> the device
  rejects; then the loop's sequence wakes up and completes.
\<close>

definition settling_part0 :: controller where
  "settling_part0 =
     state_of (connect_until_settle_part0 demo_ble (state_of (scan_find demo_scan dropped_part0)))"

definition raced_part0 :: controller where
  "raced_part0 =
     state_of (connect_after_settle_part0 demo_ble
       (state_of (handleSetOn_part0 True unreachable_ble fails_twice settling_part0)))"

text \<open>
  The order of a connect sequence, from state \<open>c\<close> with the device's answers \<open>env\<close>:
  if the listener is registered at all, the write characteristic was resolved, and
  was asked for earlier in the trace; if the transport connect succeeds and the
  service or the write characteristic does not resolve, no listener is registered;
  and at the settle wait the sequence has registered none, so that, when none was
  there before, a \<^verbatim>\<open>'disconnect'\<close> emitted during the wait changes nothing and
  \<open>isConnected\<close> stays true.
\<close>

definition observer_discipline ::
  "(ble_env \<Rightarrow> controller \<Rightarrow> unit outcome) \<Rightarrow> (controller \<Rightarrow> controller) \<Rightarrow> ble_env \<Rightarrow> controller \<Rightarrow> bool" where
  "observer_discipline connectDevice callback env c =
     (let c' = state_of (connectDevice env c); evs = events_since c c' in
        (OnceDisconnect \<in> set evs \<longrightarrow>
            \<not> isl (writeChar_res env)
          \<and> GetCharacteristic (writeUuid c) \<in> set (takeWhile (\<lambda>e. e \<noteq> OnceDisconnect) evs))
      \<and> (connect_res env = None \<and> (service_res env \<noteq> None \<or> isl (writeChar_res env)) \<longrightarrow>
            OnceDisconnect \<notin> set evs \<and> disconnectListeners c' = disconnectListeners c)
      \<and> (case connect_begin env c of
            Threw e s \<Rightarrow> True
          | Returned u s \<Rightarrow>
              disconnectListeners s = disconnectListeners c
            \<and> (disconnectListeners c = 0 \<longrightarrow>
                  isConnected s \<and> device_emits_disconnect callback s = s)))"

text \<open>
  A connect sequence can start in \<open>c\<close> (the loop starts one when \<open>isConnected\<close> is
  false, the handler of part_000 also when the write handle is missing); if it gets
  as far as its settle wait, \<open>isConnected\<close> is true there and a \<^verbatim>\<open>'disconnect'\<close> that the
  device emits during the wait leaves the controller as it is.
\<close>

definition settle_unobserved :: "(controller \<Rightarrow> controller) \<Rightarrow> ble_env \<Rightarrow> controller \<Rightarrow> bool" where
  "settle_unobserved callback env c =
     (\<not> isConnected c \<or> writeChar c = None \<longrightarrow>
        (case connect_begin env c of
           Threw e s \<Rightarrow> True
         | Returned u s \<Rightarrow> isConnected s \<and> device_emits_disconnect callback s = s))"

definition unresolved_ble :: ble_env where
  "unresolved_ble = demo_ble\<lparr>service_res := Some (Rejected ''service-not-found'')\<rparr>"

text \<open>An entry whose registration goes through: the host calls of part_000 return
  and the constructor returns.\<close>

definition entry_ok_index :: "device_config \<Rightarrow> bool" where
  "entry_ok_index cfg = (\<not> isl (constructor_index cfg))"

definition entry_ok_part0 :: "(device_config \<Rightarrow> js_error option) \<Rightarrow> device_config \<Rightarrow> bool" where
  "entry_ok_part0 host cfg = (host cfg = None \<and> \<not> isl (constructor_part0 cfg))"

text \<open>An entry without \<^verbatim>\<open>service_uuid\<close>, and a host whose calls always return.\<close>

definition broken_config :: device_config where
  "broken_config = demo_config\<lparr>name := Some ''Broken'', service_uuid := None\<rparr>"

definition host_ok :: "device_config \<Rightarrow> js_error option" where
  "host_ok cfg = None"

text \<open>The connect sequence has started the heartbeat: the interval was set with the
  next timer id, \<^verbatim>\<open>heartbeatTimer\<close> holds it, and it is running.\<close>

definition heartbeat_started :: "controller \<Rightarrow> controller \<Rightarrow> bool" where
  "heartbeat_started c c' =
     (SetInterval (nextTimerId c) HEART_BEAT_INTERVAL_MS \<in> set (events_since c c')
      \<and> heartbeatTimer c' = Some (nextTimerId c)
      \<and> nextTimerId c \<in> set (intervals c'))"

text \<open>The device is known and answers every step up to the write characteristic; it
  also answers the two steps of the notify characteristic.\<close>

definition link_resolves :: "ble_env \<Rightarrow> controller \<Rightarrow> bool" where
  "link_resolves env c =
     (device c \<noteq> None \<and> connect_res env = None \<and> gatt_res env = None
      \<and> service_res env = None \<and> \<not> isl (writeChar_res env))"

definition notify_resolves :: "ble_env \<Rightarrow> bool" where
  "notify_resolves env = (\<not> isl (notifyChar_res env) \<and> startNotifications_res env = None)"

text \<open>
  On a link that resolves, the connect sequence of part_000 returns with
  \<open>isConnected\<close> true whatever the notify characteristic does; it starts the heartbeat
  when the notify characteristic resolves and the subscription succeeds, and
  otherwise logs that the heartbeat is skipped and leaves the timers as they were.
\<close>

definition heartbeat_follows_notify :: "ble_env \<Rightarrow> controller \<Rightarrow> bool" where
  "heartbeat_follows_notify env c =
     (let r = connectDevice_part0 env c; c' = state_of r in
        link_resolves env c \<longrightarrow>
          r = Returned () c' \<and> isConnected c'
        \<and> (if notify_resolves env then heartbeat_started c c'
            else heartbeatTimer c' = heartbeatTimer c \<and> intervals c' = intervals c
               \<and> Log LWarn MsgHeartbeatSkipped \<in> set (events_since c c')))"

definition no_notify_ble :: ble_env where
  "no_notify_ble = demo_ble\<lparr>notifyChar_res := Inl (Rejected ''characteristic-not-found'')\<rparr>"

text \<open>No heartbeat: no timer handle and no running interval.\<close>

definition no_heartbeat :: "controller \<Rightarrow> bool" where
  "no_heartbeat c = (heartbeatTimer c = None \<and> intervals c = [])"

section \<open>Properties\<close>

subsection \<open>Auxiliary facts\<close>

declare write_loop.simps [simp del]

lemma and_then_simps [simp]:
  "and_then (Returned x c) f = f x c"
  "and_then (Threw e c) f = Threw e c"
  by (simp_all add: and_then_def)

lemma char_of_nat_eq: "(char_of (n::nat) = c) = (n mod 256 = of_char c)"
  by (simp add: char_of_eq_iff take_bit_eq_mod)

lemma eq_char_of_nat: "(c = char_of (n::nat)) = (n mod 256 = of_char c)"
  using char_of_nat_eq [of n c] by auto

lemma of_char_nat_bound: "(of_char c :: nat) < 256"
  using of_char_mod_256 [of c, where ?'a = nat] by (metis mod_less_divisor zero_less_numeral)

lemmas char_eval = char_of_nat_eq eq_char_of_nat of_char_of

lemmas char_defs = char_eval toLowerCase_def toLowerCase_char_def toUpperCase_def
  toUpperCase_char_def is_lower_hex_def strip_non_hex_def strip_colons_def unhex_def

lemmas prim_defs = emit_def sleep_def setTimeout_def clearInterval_def await_call_def
  writeValue_def events_since_def state_of_def

lemmas run_defs = constructor_index_def constructor_part0_def name_or_default_def
  normalize_mac_def initNodeBle_def apply_op_index_def apply_op_part0_def scan_round_def
  scan_try_def scan_find_def address_matches_def connectDevice_index_def connectDevice_part0_def
  connect_try_index_def connect_try_part0_def connect_begin_def connect_resolve_def
  connect_notify_part0_def once_disconnect_def startHeartbeat_def

lemmas demo_defs = connected_index_def connected_part0_def demo_config_def demo_scan_def
  demo_ble_def

lemma write_loop_step:
  "i < WRITE_RETRY_COUNT \<Longrightarrow> write_loop ty w i c =
     (case writeValue ty (w i) c of
        Returned u c' \<Rightarrow> Returned True c'
      | Threw e c' \<Rightarrow>
          write_loop ty w (Suc i) (sleep 500 (emit (Log LWarn (MsgSendRetry (Suc i))) c')))"
  by (subst write_loop.simps) (simp split: outcome.splits)

lemma write_loop_end: "write_loop ty w (Suc (Suc (Suc 0))) c = Returned False c"
  by (subst write_loop.simps) (simp add: WRITE_RETRY_COUNT_def)

lemma retry_bounds:
  "0 < WRITE_RETRY_COUNT" "Suc 0 < WRITE_RETRY_COUNT" "Suc (Suc 0) < WRITE_RETRY_COUNT"
  by (simp_all add: WRITE_RETRY_COUNT_def)

lemmas write_loop_unfold = write_loop_step [OF retry_bounds(1)] write_loop_step [OF retry_bounds(2)]
  write_loop_step [OF retry_bounds(3)] write_loop_end

lemma failed_attempts_cases:
  "failed_attempts w =
     (if w 0 = None then 0 else if w (Suc 0) = None then 1
      else if w (Suc (Suc 0)) = None then 2 else 3)"
  by (simp add: failed_attempts_def WRITE_RETRY_COUNT_def upt_rec numeral_2_eq_2)

lemma connected_index_state:
  "isConnected connected_index" "writeChar connected_index = Some 1"
  by (simp_all add: demo_defs run_defs char_defs prim_defs Let_def)

lemma connected_part0_state:
  "isConnected connected_part0" "writeChar connected_part0 = Some 1"
  by (simp_all add: demo_defs run_defs char_defs prim_defs Let_def)

lemma retry_discipline_index:
  assumes "isConnected c" "writeChar c = Some h"
  shows "retry_discipline Command h w c (state_of (handleSetOn_index True w c))"
  using assms
  apply (cases "w 0"; cases "w (Suc 0)"; cases "w (Suc (Suc 0))")
  apply (simp_all add: retry_discipline_def attempts_expected_def handleSetOn_index_def
      write_loop_unfold prim_defs Let_def failed_attempts_cases WRITE_RETRY_COUNT_def
      is_write_def write_or_backoff_def numeral_2_eq_2 numeral_3_eq_3)
  done

lemma retry_discipline_part0:
  assumes "isConnected c" "writeChar c = Some h"
  shows "retry_discipline Request h w c (state_of (handleSetOn_part0 True env w c))"
  using assms
  apply (cases "w 0"; cases "w (Suc 0)"; cases "w (Suc (Suc 0))"; cases "heartbeatTimer c")
  apply (simp_all add: retry_discipline_def attempts_expected_def handleSetOn_part0_def
      startHeartbeat_def write_loop_unfold prim_defs Let_def failed_attempts_cases
      WRITE_RETRY_COUNT_def is_write_def write_or_backoff_def numeral_2_eq_2 numeral_3_eq_3)
  done

subsection \<open>C1: the write is retried at most three times\<close>

text \<open>
  C1. An activation request with value true on a controller that is connected and
  has its write handle makes at most 3 writes; the writes and the 500 ms delays of
  the trace are: each failed write followed by the delay, then (unless all three
  failed) the write that succeeded and nothing after it; a success sets
  \<open>isSwitchOn\<close>. In particular failing on attempts 1 and 2 and succeeding on attempt
  3 gives exactly 3 writes and \<open>isSwitchOn = True\<close>. Both files.
\<close>

theorem write_retried_at_most_three_times:
  assumes "isConnected c" and "writeChar c = Some h"
  shows "retry_discipline Command h w c (state_of (handleSetOn_index True w c))
       \<and> retry_discipline Request h w c (state_of (handleSetOn_part0 True env w c))"
  using assms retry_discipline_index retry_discipline_part0 by blast

theorem write_retried_at_most_three_times_witness:
  "isConnected connected_part0 \<and> writeChar connected_part0 = Some 1
   \<and> fails_twice 0 \<noteq> None \<and> fails_twice 1 \<noteq> None \<and> fails_twice 2 = None
   \<and> failed_attempts fails_twice < WRITE_RETRY_COUNT
   \<and> length (filter is_write (filter write_or_backoff (events_since connected_part0
        (state_of (handleSetOn_index True fails_twice connected_part0))))) = 3
   \<and> isSwitchOn (state_of (handleSetOn_index True fails_twice connected_part0))
   \<and> length (filter is_write (filter write_or_backoff (events_since connected_part0
        (state_of (handleSetOn_part0 True demo_ble fails_twice connected_part0))))) = 3
   \<and> isSwitchOn (state_of (handleSetOn_part0 True demo_ble fails_twice connected_part0))"
proof -
  have w: "fails_twice 0 \<noteq> None \<and> fails_twice 1 \<noteq> None \<and> fails_twice 2 = None"
    by (simp add: fails_twice_def)
  have k: "failed_attempts fails_twice < WRITE_RETRY_COUNT"
    by (simp add: failed_attempts_cases fails_twice_def WRITE_RETRY_COUNT_def)
  have "retry_discipline Command 1 fails_twice connected_part0
           (state_of (handleSetOn_index True fails_twice connected_part0))
       \<and> retry_discipline Request 1 fails_twice connected_part0
           (state_of (handleSetOn_part0 True demo_ble fails_twice connected_part0))"
    by (rule write_retried_at_most_three_times [OF connected_part0_state])
  with w k connected_part0_state show ?thesis
    unfolding retry_discipline_def Let_def by blast
qed

lemma state_of_simps [simp]: "state_of (Returned x c) = c" "state_of (Threw e c) = c"
  by (simp_all add: state_of_def)

lemma write_loop_frame:
  "state_of (write_loop ty w i c) = c\<lparr>trace := trace (state_of (write_loop ty w i c))\<rparr>"
proof (induction ty w i c rule: write_loop.induct)
  case (1 ty w i c)
  show ?case
  proof (cases "i < WRITE_RETRY_COUNT")
    case False
    then show ?thesis by (subst (1 2) write_loop.simps) simp
  next
    case True
    show ?thesis
    proof (cases "writeValue ty (w i) c")
      case (Returned u c')
      then have "c' = c\<lparr>trace := trace c'\<rparr>"
        by (auto simp: writeValue_def await_call_def emit_def split: option.splits)
      with True Returned show ?thesis by (subst (1 2) write_loop.simps) simp
    next
      case (Threw e c')
      then have c': "c' = c\<lparr>trace := trace c'\<rparr>"
        by (auto simp: writeValue_def await_call_def emit_def split: option.splits)
      let ?c1 = "sleep 500 (emit (Log LWarn (MsgSendRetry (i + 1))) c')"
      have c1: "?c1 = c\<lparr>trace := trace ?c1\<rparr>"
        by (subst c') (simp add: sleep_def emit_def)
      from "1.IH" [OF True Threw]
      have "state_of (write_loop ty w (i + 1) ?c1) = ?c1\<lparr>trace := trace (state_of (write_loop ty w (i + 1) ?c1))\<rparr>" .
      then have "state_of (write_loop ty w (i + 1) ?c1) = c\<lparr>trace := trace (state_of (write_loop ty w (i + 1) ?c1))\<rparr>"
        by (subst (asm) (2) c1) simp
      with True Threw show ?thesis by (subst (1 2) write_loop.simps) simp
    qed
  qed
qed

lemma write_loop_packet:
  "packet_inv ty b c \<Longrightarrow> packet_inv ty b (state_of (write_loop ty w i c))"
proof (induction ty w i c rule: write_loop.induct)
  case (1 ty w i c)
  show ?case
  proof (cases "i < WRITE_RETRY_COUNT")
    case False
    with "1.prems" show ?thesis by (subst write_loop.simps) simp
  next
    case True
    show ?thesis
    proof (cases "writeValue ty (w i) c")
      case (Returned u c')
      with "1.prems" have "packet_inv ty b c'"
        by (auto simp: packet_inv_def write_ok_def writeValue_def await_call_def emit_def split: option.splits)
      with True Returned show ?thesis by (subst write_loop.simps) simp
    next
      case (Threw e c')
      with "1.prems" have "packet_inv ty b c'"
        by (auto simp: packet_inv_def write_ok_def writeValue_def await_call_def emit_def split: option.splits)
      then have "packet_inv ty b (sleep 500 (emit (Log LWarn (MsgSendRetry (i + 1))) c'))"
        by (simp add: packet_inv_def write_ok_def sleep_def emit_def)
      from "1.IH" [OF True Threw this] True Threw show ?thesis
        by (subst write_loop.simps) simp
    qed
  qed
qed

lemma connectDevice_index_packet:
  "packet_inv ty b c \<Longrightarrow> packet_inv ty b (state_of (connectDevice_index env c))"
  by (auto simp: packet_inv_def write_ok_def connectDevice_index_def connect_try_index_def
      connect_begin_def connect_resolve_def once_disconnect_def prim_defs Let_def
      split: option.splits sum.splits)

lemma connectDevice_part0_packet:
  "packet_inv ty b c \<Longrightarrow> packet_inv ty b (state_of (connectDevice_part0 env c))"
  by (auto simp: packet_inv_def write_ok_def connectDevice_part0_def connect_try_part0_def
      connect_begin_def connect_resolve_def connect_notify_part0_def startHeartbeat_def
      once_disconnect_def prim_defs Let_def
      split: option.splits sum.splits)

lemma scan_round_packet:
  assumes "\<And>env c. packet_inv ty b c \<Longrightarrow> packet_inv ty b (state_of (f env c))"
    and "packet_inv ty b c"
  shows "packet_inv ty b (scan_round f d env c)"
proof (cases "isConnected c")
  case True
  with assms(2) show ?thesis
    by (simp add: scan_round_def packet_inv_def write_ok_def prim_defs)
next
  case False
  have "packet_inv ty b (state_of (scan_try f env c))"
  proof (cases "start_res env"; cases "stop_after_res env"; cases "devices_res env")
  qed (insert assms, auto simp: scan_try_def scan_find_def Let_def prim_defs packet_inv_def write_ok_def split: option.splits)
  then show ?thesis using False
    by (auto simp: scan_round_def packet_inv_def write_ok_def prim_defs split: outcome.splits)
qed

lemma packet_inv_emit:
  "packet_inv ty b (emit e c) = (packet_inv ty b c \<and> write_ok ty b e)"
  by (auto simp: packet_inv_def emit_def)

lemma handleSetOn_index_packet:
  assumes "packet_inv Command b c"
  shows "packet_inv Command b (state_of (handleSetOn_index v w c))"
proof -
  let ?c1 = "emit (Log LInfo MsgSendStart) c"
  have c1: "packet_inv Command b ?c1"
    using assms by (simp add: packet_inv_emit write_ok_def)
  have "packet_inv Command b (state_of (write_loop Command w 0 ?c1))"
    by (rule write_loop_packet [OF c1])
  then show ?thesis using assms
    by (cases "write_loop Command w 0 ?c1")
       (auto simp: handleSetOn_index_def Let_def packet_inv_def write_ok_def prim_defs)
qed

lemma handleSetOn_part0_packet:
  assumes "packet_inv Request b c"
  shows "packet_inv Request b (state_of (handleSetOn_part0 v env w c))"
proof (cases v)
  case False
  with assms show ?thesis by (simp add: handleSetOn_part0_def)
next
  case True
  let ?r = "if \<not> isConnected c \<or> writeChar c = None
            then connectDevice_part0 env (emit (Log LInfo MsgReconnectNow) c)
            else Returned () c"
  have r: "packet_inv Request b (state_of ?r)"
    using assms connectDevice_part0_packet [of Request b "emit (Log LInfo MsgReconnectNow) c" env]
    by (simp add: packet_inv_emit write_ok_def)
  show ?thesis
  proof (cases ?r)
    case (Threw e c')
    with r True show ?thesis
      by (simp add: handleSetOn_part0_def Let_def packet_inv_def write_ok_def prim_defs)
  next
    case (Returned u c1)
    let ?c2 = "sleep 300 (emit (Log LInfo MsgSendStart)
                (case heartbeatTimer c1 of None \<Rightarrow> c1 | Some t \<Rightarrow> clearInterval t c1))"
    from r Returned have "packet_inv Request b ?c2"
      by (auto simp: packet_inv_def write_ok_def prim_defs split: option.splits)
    then have "packet_inv Request b (state_of (write_loop Request w 0 ?c2))"
      by (rule write_loop_packet)
    then show ?thesis using True Returned
      by (cases "write_loop Request w 0 ?c2")
         (auto simp: handleSetOn_part0_def Let_def packet_inv_def write_ok_def prim_defs
            startHeartbeat_def split: option.splits)
  qed
qed

lemma funpow_packet:
  assumes "\<And>c. packet_inv ty b c \<Longrightarrow> packet_inv ty b (f c)" "packet_inv ty b c"
  shows "packet_inv ty b ((f ^^ n) c)"
  using assms by (induction n) auto

lemma apply_op_index_packet:
  "packet_inv Command b c \<Longrightarrow> packet_inv Command b (apply_op_index x c)"
proof (cases x)
  case (ScanRound env)
  assume "packet_inv Command b c"
  then show ?thesis using ScanRound
    by (simp add: apply_op_index_def scan_round_packet [OF connectDevice_index_packet])
next
  case DeviceDisconnect
  assume a: "packet_inv Command b c"
  have "packet_inv Command b ((on_disconnect_index ^^ disconnectListeners c) (c\<lparr>disconnectListeners := 0\<rparr>))"
    by (rule funpow_packet) (insert a, auto simp: on_disconnect_index_def packet_inv_def write_ok_def prim_defs)
  then show ?thesis using DeviceDisconnect
    by (simp add: apply_op_index_def device_emits_disconnect_def)
next
  case (SetOn v env w)
  assume "packet_inv Command b c"
  then show ?thesis using SetOn by (simp add: apply_op_index_def handleSetOn_index_packet)
qed (auto simp: apply_op_index_def initNodeBle_def fire_timeout_def run_timer_def packet_inv_def
       write_ok_def prim_defs split: option.splits timer_action.splits)

lemma apply_op_part0_packet:
  "packet_inv Request b c \<Longrightarrow> packet_inv Request b (apply_op_part0 x c)"
proof (cases x)
  case (ScanRound env)
  assume "packet_inv Request b c"
  then show ?thesis using ScanRound
    by (simp add: apply_op_part0_def scan_round_packet [OF connectDevice_part0_packet])
next
  case DeviceDisconnect
  assume a: "packet_inv Request b c"
  have "packet_inv Request b ((on_disconnect_part0 ^^ disconnectListeners c) (c\<lparr>disconnectListeners := 0\<rparr>))"
    by (rule funpow_packet)
       (insert a, auto simp: on_disconnect_part0_def packet_inv_def write_ok_def prim_defs Let_def
          split: option.splits)
  then show ?thesis using DeviceDisconnect
    by (simp add: apply_op_part0_def device_emits_disconnect_def)
next
  case (SetOn v env w)
  assume "packet_inv Request b c"
  then show ?thesis using SetOn by (simp add: apply_op_part0_def handleSetOn_part0_packet)
qed (auto simp: apply_op_part0_def initNodeBle_def fire_timeout_def run_timer_def packet_inv_def
       heartbeat_tick_def write_ok_def prim_defs split: option.splits timer_action.splits)

lemma run_index_packet:
  "packet_inv Command b c \<Longrightarrow> packet_inv Command b (run_index ops c)"
  by (induction ops arbitrary: c) (auto simp: apply_op_index_packet)

lemma run_part0_packet:
  "packet_inv Request b c \<Longrightarrow> packet_inv Request b (run_part0 ops c)"
  by (induction ops arbitrary: c) (auto simp: apply_op_part0_packet)

lemma constructor_index_packet:
  "constructor_index cfg = Inr c \<Longrightarrow> push_packet_hex cfg = Some hex \<Longrightarrow> packet_inv ty (hex_decode hex) c"
  by (auto simp: constructor_index_def packet_inv_def split: option.splits)

lemma constructor_part0_packet:
  "constructor_part0 cfg = Inr c \<Longrightarrow> push_packet_hex cfg = Some hex \<Longrightarrow> packet_inv ty (hex_decode hex) c"
  by (auto simp: constructor_part0_def packet_inv_def split: option.splits)

lemmas handler_defs = handleSetOn_index_def handleSetOn_part0_def write_loop_unfold
  fails_twice_def always_fails_def

lemma pushed_index_writes:
  "filter is_write (trace pushed_index) =
     [WriteValue 1 [1, 2, 3, 15] Command, WriteValue 1 [1, 2, 3, 15] Command,
      WriteValue 1 [1, 2, 3, 15] Command]"
  by (simp add: pushed_index_def demo_ops_def demo_defs run_defs handler_defs char_defs prim_defs
      Let_def is_write_def)

lemma pushed_part0_writes:
  "filter is_write (trace pushed_part0) =
     [WriteValue 1 [1, 2, 3, 15] Request, WriteValue 1 [1, 2, 3, 15] Request,
      WriteValue 1 [1, 2, 3, 15] Request]"
  by (simp add: pushed_part0_def demo_ops_def demo_defs run_defs handler_defs char_defs prim_defs
      Let_def is_write_def)


lemma demo_constructed:
  "constructor_index demo_config = Inr (projr (constructor_index demo_config))"
  "constructor_part0 demo_config = Inr (projr (constructor_part0 demo_config))"
  by (simp_all add: constructor_index_def constructor_part0_def demo_config_def)

subsection \<open>C2: what is written\<close>

text \<open>
  C2 as stated fails on \<^verbatim>\<open>src/index.js\<close>: the three writes of the activation carry
  the bytes 01 02 03 0f, but their type is \<^verbatim>\<open>'command'\<close>, the write without response,
  so they are not all acknowledged writes of that packet.
\<close>

theorem index_writes_are_unacknowledged:
  "filter is_write (trace pushed_index) =
     [WriteValue 1 [1, 2, 3, 15] Command, WriteValue 1 [1, 2, 3, 15] Command,
      WriteValue 1 [1, 2, 3, 15] Command]
   \<and> \<not> list_all (write_ok Request [1, 2, 3, 15]) (trace pushed_index)"
proof -
  have "\<not> list_all (write_ok Request [1, 2, 3, 15]) (filter is_write (trace pushed_index))"
    by (simp add: pushed_index_writes write_ok_def)
  then have "\<not> list_all (write_ok Request [1, 2, 3, 15]) (trace pushed_index)"
    by (auto simp: list_all_iff)
  then show ?thesis by (simp add: pushed_index_writes)
qed

text \<open>
  C2, amended. Whatever happens to a controller after its construction, every write
  in its trace, retries included, carries exactly the bytes that \<^verbatim>\<open>Buffer.from\<close> decoded
  from the configured \<^verbatim>\<open>push_packet_hex\<close> (for \<^verbatim>\<open>"0102030f"\<close> the bytes 1, 2, 3, 15);
  \<^verbatim>\<open>src/unnamed/part_000\<close> issues it as an acknowledged write (\<^verbatim>\<open>'request'\<close>),
  \<^verbatim>\<open>src/index.js\<close> as a write without response (\<^verbatim>\<open>'command'\<close>).
\<close>

theorem every_write_carries_the_configured_packet:
  assumes "push_packet_hex cfg = Some hex"
  shows "(constructor_index cfg = Inr c \<longrightarrow>
            list_all (write_ok Command (hex_decode hex)) (trace (run_index ops c)))
       \<and> (constructor_part0 cfg = Inr c' \<longrightarrow>
            list_all (write_ok Request (hex_decode hex)) (trace (run_part0 ops' c')))
       \<and> hex_decode ''0102030f'' = [1, 2, 3, 15]"
proof (intro conjI impI)
  assume "constructor_index cfg = Inr c"
  then have "packet_inv Command (hex_decode hex) c"
    using assms by (rule constructor_index_packet)
  then have "packet_inv Command (hex_decode hex) (run_index ops c)"
    by (rule run_index_packet)
  then show "list_all (write_ok Command (hex_decode hex)) (trace (run_index ops c))"
    by (simp add: packet_inv_def)
next
  assume "constructor_part0 cfg = Inr c'"
  then have "packet_inv Request (hex_decode hex) c'"
    using assms by (rule constructor_part0_packet)
  then have "packet_inv Request (hex_decode hex) (run_part0 ops' c')"
    by (rule run_part0_packet)
  then show "list_all (write_ok Request (hex_decode hex)) (trace (run_part0 ops' c'))"
    by (simp add: packet_inv_def)
next
  show "hex_decode ''0102030f'' = [1, 2, 3, 15]"
    by (simp add: unhex_def)
qed

theorem every_write_carries_the_configured_packet_witness:
  "push_packet_hex demo_config = Some ''0102030f''
   \<and> constructor_index demo_config = Inr (projr (constructor_index demo_config))
   \<and> constructor_part0 demo_config = Inr (projr (constructor_part0 demo_config))
   \<and> list_all (write_ok Command [1, 2, 3, 15]) (trace pushed_index)
   \<and> list_all (write_ok Request [1, 2, 3, 15]) (trace pushed_part0)
   \<and> length (filter is_write (trace pushed_index)) = 3
   \<and> length (filter is_write (trace pushed_part0)) = 3"
proof -
  have h: "push_packet_hex demo_config = Some ''0102030f''"
    by (simp add: demo_config_def)
  have d: "hex_decode ''0102030f'' = [1, 2, 3, 15]"
    by (simp add: unhex_def)
  from every_write_carries_the_configured_packet
         [OF h, of "projr (constructor_index demo_config)" demo_ops
            "projr (constructor_part0 demo_config)" demo_ops]
  have "list_all (write_ok Command [1, 2, 3, 15]) (trace pushed_index)
      \<and> list_all (write_ok Request [1, 2, 3, 15]) (trace pushed_part0)"
    unfolding pushed_index_def pushed_part0_def d using demo_constructed by blast
  then show ?thesis
    using h demo_constructed by (simp add: pushed_index_writes pushed_part0_writes)
qed

lemma write_loop_timeouts: "timeouts (state_of (write_loop ty w i c)) = timeouts c"
  by (subst write_loop_frame) simp

lemma write_loop_isConnected: "isConnected (state_of (write_loop ty w i c)) = isConnected c"
  by (subst write_loop_frame) simp

lemma connectDevice_part0_timeouts:
  "timeouts (state_of (connectDevice_part0 env c)) = timeouts c"
  by (auto simp: connectDevice_part0_def connect_try_part0_def
      connect_begin_def connect_resolve_def connect_notify_part0_def startHeartbeat_def
      once_disconnect_def prim_defs Let_def
      split: option.splits sum.splits)

lemma connectDevice_part0_isSwitchOn:
  "isSwitchOn (state_of (connectDevice_part0 env c)) = isSwitchOn c"
  by (auto simp: connectDevice_part0_def connect_try_part0_def
      connect_begin_def connect_resolve_def connect_notify_part0_def startHeartbeat_def
      once_disconnect_def prim_defs Let_def
      split: option.splits sum.splits)

lemma auto_off_after_setTimeout:
  "timeouts c1 = timeouts c \<Longrightarrow> auto_off_scheduled c (setTimeout AUTO_OFF_MS AutoOff c1)"
  by (simp add: auto_off_scheduled_def setTimeout_def emit_def AUTO_OFF_MS_def fire_timeout_def
      run_timer_def events_since_def Let_def)

lemma handleSetOn_index_auto_off:
  assumes "isConnected c" "writeChar c \<noteq> None"
  shows "auto_off_scheduled c (state_of (handleSetOn_index True w c))"
proof -
  let ?c1 = "emit (Log LInfo MsgSendStart) c"
  have t: "timeouts (state_of (write_loop Command w 0 ?c1)) = timeouts c"
    by (simp add: write_loop_timeouts emit_def)
  show ?thesis
  proof (cases "write_loop Command w 0 ?c1")
    case (Returned ok c')
    with t have "timeouts c' = timeouts c" by simp
    then have "auto_off_scheduled c (setTimeout AUTO_OFF_MS AutoOff
        (if ok then (emit (Log LInfo MsgSendDone) c')\<lparr>isSwitchOn := True\<rparr> else c'))"
      by (intro auto_off_after_setTimeout) (simp add: emit_def)
    with assms Returned show ?thesis
      by (auto simp: handleSetOn_index_def Let_def)
  next
    case (Threw e c')
    with t have "timeouts c' = timeouts c" by simp
    then have "auto_off_scheduled c (setTimeout AUTO_OFF_MS AutoOff (emit (Log LError MsgSendError) c'))"
      by (intro auto_off_after_setTimeout) (simp add: emit_def)
    with assms Threw show ?thesis
      by (auto simp: handleSetOn_index_def Let_def)
  qed
qed

lemma handleSetOn_part0_auto_off:
  "auto_off_scheduled c (state_of (handleSetOn_part0 True env w c))"
proof -
  let ?r = "if \<not> isConnected c \<or> writeChar c = None
            then connectDevice_part0 env (emit (Log LInfo MsgReconnectNow) c)
            else Returned () c"
  have r: "timeouts (state_of ?r) = timeouts c"
    by (simp add: connectDevice_part0_timeouts emit_def)
  show ?thesis
  proof (cases ?r)
    case (Threw e c1)
    with r have "timeouts c1 = timeouts c" by simp
    then have "auto_off_scheduled c (setTimeout AUTO_OFF_MS AutoOff (emit (Log LError MsgControlFailed) c1))"
      by (intro auto_off_after_setTimeout) (simp add: emit_def)
    with Threw show ?thesis
      by (simp add: handleSetOn_part0_def Let_def)
  next
    case (Returned u c1)
    let ?c2 = "sleep 300 (emit (Log LInfo MsgSendStart)
                (case heartbeatTimer c1 of None \<Rightarrow> c1 | Some t \<Rightarrow> clearInterval t c1))"
    from r Returned have "timeouts ?c2 = timeouts c"
      by (auto simp: prim_defs split: option.splits)
    then have t: "timeouts (state_of (write_loop Request w 0 ?c2)) = timeouts c"
      by (simp add: write_loop_timeouts)
    show ?thesis
    proof (cases "write_loop Request w 0 ?c2")
      case (Returned ok c3)
      with t have "timeouts c3 = timeouts c" by simp
      then have "auto_off_scheduled c (setTimeout AUTO_OFF_MS AutoOff
          (startHeartbeat (if ok then (emit (Log LInfo MsgSendDone) c3)\<lparr>isSwitchOn := True\<rparr> else c3)))"
        by (intro auto_off_after_setTimeout)
           (auto simp: startHeartbeat_def prim_defs Let_def split: option.splits)
      with Returned \<open>?r = Returned u c1\<close> show ?thesis
        by (simp add: handleSetOn_part0_def Let_def)
    next
      case (Threw e c3)
      with t have "timeouts c3 = timeouts c" by simp
      then have "auto_off_scheduled c (setTimeout AUTO_OFF_MS AutoOff (emit (Log LError MsgControlFailed) c3))"
        by (intro auto_off_after_setTimeout) (simp add: emit_def)
      with Threw \<open>?r = Returned u c1\<close> show ?thesis
        by (simp add: handleSetOn_part0_def Let_def)
    qed
  qed
qed

subsection \<open>C4: the auto-off\<close>

text \<open>
  C4. An activation request that reaches the write stage (in \<^verbatim>\<open>src/index.js\<close>: the
  controller is connected and has its write handle; in \<^verbatim>\<open>src/unnamed/part_000\<close>: every
  request with value true) schedules the auto-off, whatever the writes answer: a
  timeout of 1500 ms whose callback, with no other trigger, sets \<open>isSwitchOn\<close> to
  false and pushes \<open>false\<close> to the host.
\<close>

theorem auto_off_is_always_scheduled:
  "(isConnected c \<and> writeChar c \<noteq> None \<longrightarrow>
      auto_off_scheduled c (state_of (handleSetOn_index True w c)))
   \<and> auto_off_scheduled c (state_of (handleSetOn_part0 True env w c))"
  using handleSetOn_index_auto_off handleSetOn_part0_auto_off by blast

theorem auto_off_is_always_scheduled_witness:
  "isConnected connected_index \<and> writeChar connected_index \<noteq> None
   \<and> auto_off_scheduled connected_index
        (state_of (handleSetOn_index True always_fails connected_index))
   \<and> auto_off_scheduled connected_index
        (state_of (handleSetOn_part0 True demo_ble always_fails connected_index))
   \<and> timeouts (state_of (handleSetOn_index True always_fails connected_index))
        = [(1500, AutoOff)]"
  using auto_off_is_always_scheduled [of connected_index always_fails demo_ble]
    connected_index_state
  by (simp add: auto_off_scheduled_def demo_defs run_defs char_defs prim_defs Let_def)

lemma write_loop_isSwitchOn: "isSwitchOn (state_of (write_loop ty w i c)) = isSwitchOn c"
  by (subst write_loop_frame) simp

lemma write_loop_all_fail:
  assumes "w 0 \<noteq> None" "w (Suc 0) \<noteq> None" "w (Suc (Suc 0)) \<noteq> None"
  shows "\<exists>c'. write_loop ty w 0 c = Returned False c'"
  using assms by (cases "writeChar c") (auto simp: write_loop_unfold prim_defs)



lemma stays_offI:
  assumes "isSwitchOn c1 = isSwitchOn c" "timeouts c1 = timeouts c"
  shows "stays_off c (Returned () (setTimeout AUTO_OFF_MS AutoOff c1))"
  using assms
  by (simp add: stays_off_def setTimeout_def emit_def fire_timeout_def run_timer_def)

lemma handleSetOn_index_stays_off:
  assumes "w 0 \<noteq> None" "w (Suc 0) \<noteq> None" "w (Suc (Suc 0)) \<noteq> None"
    and "isConnected c" "writeChar c \<noteq> None"
  shows "stays_off c (handleSetOn_index True w c)"
proof -
  let ?c1 = "emit (Log LInfo MsgSendStart) c"
  from write_loop_all_fail [OF assms(1-3)]
  obtain c' where c': "write_loop Command w 0 ?c1 = Returned False c'" by blast
  have "isSwitchOn c' = isSwitchOn c" "timeouts c' = timeouts c"
    using write_loop_isSwitchOn [of Command w 0 ?c1] write_loop_timeouts [of Command w 0 ?c1] c'
    by (simp_all add: emit_def)
  then have "stays_off c (Returned () (setTimeout AUTO_OFF_MS AutoOff c'))"
    by (rule stays_offI)
  with assms(4,5) c' show ?thesis
    by (auto simp: handleSetOn_index_def Let_def)
qed

lemma handleSetOn_part0_stays_off:
  assumes "w 0 \<noteq> None" "w (Suc 0) \<noteq> None" "w (Suc (Suc 0)) \<noteq> None"
  shows "stays_off c (handleSetOn_part0 True env w c)"
proof -
  let ?r = "if \<not> isConnected c \<or> writeChar c = None
            then connectDevice_part0 env (emit (Log LInfo MsgReconnectNow) c)
            else Returned () c"
  have r: "timeouts (state_of ?r) = timeouts c" "isSwitchOn (state_of ?r) = isSwitchOn c"
    by (simp_all add: connectDevice_part0_timeouts connectDevice_part0_isSwitchOn emit_def)
  show ?thesis
  proof (cases ?r)
    case (Threw e c1)
    with r have "isSwitchOn (emit (Log LError MsgControlFailed) c1) = isSwitchOn c"
      "timeouts (emit (Log LError MsgControlFailed) c1) = timeouts c"
      by (simp_all add: emit_def)
    then have "stays_off c (Returned () (setTimeout AUTO_OFF_MS AutoOff (emit (Log LError MsgControlFailed) c1)))"
      by (rule stays_offI)
    with Threw show ?thesis
      by (simp add: handleSetOn_part0_def Let_def)
  next
    case (Returned u c1)
    let ?c2 = "sleep 300 (emit (Log LInfo MsgSendStart)
                (case heartbeatTimer c1 of None \<Rightarrow> c1 | Some t \<Rightarrow> clearInterval t c1))"
    from write_loop_all_fail [OF assms(1-3)]
    obtain c3 where c3: "write_loop Request w 0 ?c2 = Returned False c3" by blast
    from r Returned have "timeouts ?c2 = timeouts c" "isSwitchOn ?c2 = isSwitchOn c"
      by (auto simp: prim_defs split: option.splits)
    then have "isSwitchOn c3 = isSwitchOn c" "timeouts c3 = timeouts c"
      using write_loop_isSwitchOn [of Request w 0 ?c2] write_loop_timeouts [of Request w 0 ?c2] c3
      by simp_all
    then have "isSwitchOn (startHeartbeat c3) = isSwitchOn c" "timeouts (startHeartbeat c3) = timeouts c"
      by (auto simp: startHeartbeat_def prim_defs Let_def split: option.splits)
    then have "stays_off c (Returned () (setTimeout AUTO_OFF_MS AutoOff (startHeartbeat c3)))"
      by (rule stays_offI)
    with Returned c3 show ?thesis
      by (simp add: handleSetOn_part0_def Let_def)
  qed
qed

subsection \<open>C3: three failed writes\<close>

text \<open>
  C3. When all three writes of an activation request fail, the handler does not set
  \<open>isSwitchOn\<close> (it is what it was before the request, false unless an earlier
  activation is still within its window), \<open>isSwitchOn\<close> is false once the auto-off
  timeout of the request has come due, and the handler returns: nothing is thrown
  to the host. Both files.
\<close>

theorem exhausted_retries_leave_switch_off:
  assumes "w 0 \<noteq> None" and "w 1 \<noteq> None" and "w 2 \<noteq> None"
  shows "(isConnected c \<and> writeChar c \<noteq> None \<longrightarrow> stays_off c (handleSetOn_index True w c))
       \<and> stays_off c (handleSetOn_part0 True env w c)"
  using assms handleSetOn_index_stays_off [of w c] handleSetOn_part0_stays_off [of w c env]
  by (simp add: numeral_2_eq_2)

theorem exhausted_retries_leave_switch_off_witness:
  "always_fails 0 \<noteq> None \<and> always_fails 1 \<noteq> None \<and> always_fails 2 \<noteq> None
   \<and> isConnected connected_index \<and> writeChar connected_index \<noteq> None
   \<and> stays_off connected_index (handleSetOn_index True always_fails connected_index)
   \<and> stays_off connected_part0 (handleSetOn_part0 True demo_ble always_fails connected_part0)
   \<and> \<not> isSwitchOn connected_index \<and> \<not> isSwitchOn connected_part0"
proof -
  have w: "always_fails 0 \<noteq> None" "always_fails 1 \<noteq> None" "always_fails 2 \<noteq> None"
    by (simp_all add: always_fails_def)
  have off: "\<not> isSwitchOn connected_index" "\<not> isSwitchOn connected_part0"
    by (simp_all add: demo_defs run_defs char_defs prim_defs Let_def)
  from exhausted_retries_leave_switch_off [OF w, of connected_index demo_ble]
    exhausted_retries_leave_switch_off [OF w, of connected_part0 demo_ble]
  show ?thesis using w off connected_index_state by simp
qed

lemmas connect_part0_defs = connectDevice_part0_def connect_try_part0_def
      connect_begin_def connect_resolve_def connect_notify_part0_def startHeartbeat_def
      once_disconnect_def

lemma connectDevice_part0_Returned:
  "connectDevice_part0 env c = Returned u c2 \<Longrightarrow> isConnected c2 \<and> writeChar c2 \<noteq> None"
  by (auto simp: connect_part0_defs prim_defs Let_def split: option.splits sum.splits)

lemma connectDevice_part0_Threw:
  "connectDevice_part0 env c = Threw e c2 \<Longrightarrow>
     isSwitchOn c2 = isSwitchOn c \<and> filter is_write (events_since c c2) = []"
  by (auto simp: connect_part0_defs prim_defs is_write_def Let_def split: option.splits sum.splits)

lemma reconnects_first_part0:
  assumes "\<not> isConnected c \<or> writeChar c = None"
  shows "reconnects_first env w c"
proof (cases "connectDevice_part0 env (emit (Log LInfo MsgReconnectNow) c)")
  case (Returned u c2)
  from connectDevice_part0_Returned [OF this]
  obtain h where ok: "isConnected c2" "writeChar c2 = Some h" by auto
  have "handleSetOn_part0 True env w c = handleSetOn_part0 True env w c2"
    using assms Returned ok by (auto simp: handleSetOn_part0_def)
  with Returned ok show ?thesis by (simp add: reconnects_first_def)
next
  case (Threw e c2)
  from connectDevice_part0_Threw [OF this]
  have c2: "isSwitchOn c2 = isSwitchOn c"
    "filter is_write (drop (Suc (length (trace c))) (trace c2)) = []"
    by (simp_all add: emit_def events_since_def)
  have len: "length (trace c) < length (trace c2)"
    using Threw
    by (auto simp: connect_part0_defs prim_defs Let_def split: option.splits sum.splits)
  have "drop (length (trace c)) (trace c2) = (trace c2 ! length (trace c)) # drop (Suc (length (trace c))) (trace c2)"
    using len by (simp add: Cons_nth_drop_Suc)
  moreover have "trace c2 ! length (trace c) = Log LInfo MsgReconnectNow"
    using Threw
    by (auto simp: connect_part0_defs prim_defs Let_def nth_append split: option.splits sum.splits)
  ultimately have "filter is_write (drop (length (trace c)) (trace c2)) = []"
    using c2(2) by (simp add: is_write_def)
  with Threw c2(1) assms len show ?thesis
    by (auto simp: reconnects_first_def handleSetOn_part0_def Let_def setTimeout_def emit_def
        events_since_def is_write_def)
qed

lemma gives_up_index:
  assumes "\<not> isConnected c \<or> writeChar c = None"
  shows "gives_up w c"
  using assms by (auto simp: gives_up_def handleSetOn_index_def prim_defs Let_def)

subsection \<open>C5: an activation request without a live link\<close>

text \<open>
  C5, amended. For an activation request with value true that arrives while the
  controller is not connected or has no write handle: \<^verbatim>\<open>src/unnamed/part_000\<close> runs the
  connect sequence first and then proceeds as for a connected controller; if the
  sequence fails, no write is made, the failure is logged, \<open>isSwitchOn\<close> stays as it
  was and the auto-off is still scheduled. \<^verbatim>\<open>src/index.js\<close> attempts no connect: it logs
  a warning, schedules a push of \<open>false\<close> to the host after 500 ms and returns, with
  no write and \<open>isSwitchOn\<close> as it was.
\<close>

theorem disconnected_activation:
  assumes "\<not> isConnected c \<or> writeChar c = None"
  shows "reconnects_first env w c \<and> gives_up w c"
  using assms reconnects_first_part0 gives_up_index by blast

lemma dropped_state:
  "\<not> isConnected dropped_index" "device dropped_index = Some ''AA:BB:CC:DD:EE:FF''"
  "\<not> isConnected dropped_part0" "device dropped_part0 = Some ''AA:BB:CC:DD:EE:FF''"
  by (simp_all add: dropped_index_def dropped_part0_def device_emits_disconnect_def
      on_disconnect_index_def on_disconnect_part0_def demo_defs run_defs char_defs prim_defs Let_def)

text \<open>
  C5 as stated fails on \<^verbatim>\<open>src/index.js\<close>: on a controller that knows its device and has
  lost the link, the handler makes two calls, a log line and a \<^verbatim>\<open>setTimeout\<close>; there is
  no connect.
\<close>

theorem index_does_not_reconnect:
  "\<not> isConnected dropped_index \<and> device dropped_index = Some ''AA:BB:CC:DD:EE:FF''
   \<and> events_since dropped_index (state_of (handleSetOn_index True fails_twice dropped_index))
       = [Log LWarn MsgNotConnected, SetTimeout 500 HostOffOnly]"
  using dropped_state by (simp add: handleSetOn_index_def prim_defs)

lemma unreachable_connect:
  "connectDevice_part0 unreachable_ble (emit (Log LInfo MsgReconnectNow) dropped_part0)
   = Threw (Rejected ''le-connection-abort-by-local'')
       (emit DeviceConnect (emit (Log LInfo MsgConnecting)
          (emit (Log LInfo MsgReconnectNow) dropped_part0)))"
  using dropped_state
  by (simp add: connect_part0_defs unreachable_ble_def demo_ble_def prim_defs)

theorem disconnected_activation_witness:
  "\<not> isConnected dropped_part0
   \<and> reconnects_first unreachable_ble fails_twice dropped_part0
   \<and> gives_up fails_twice dropped_part0
   \<and> connectDevice_part0 unreachable_ble (emit (Log LInfo MsgReconnectNow) dropped_part0)
       = Threw (Rejected ''le-connection-abort-by-local'')
           (emit DeviceConnect (emit (Log LInfo MsgConnecting)
              (emit (Log LInfo MsgReconnectNow) dropped_part0)))"
proof -
  have h: "\<not> isConnected dropped_part0 \<or> writeChar dropped_part0 = None"
    using dropped_state by simp
  from disconnected_activation [OF h, of unreachable_ble fails_twice] dropped_state(3)
    unreachable_connect
  show ?thesis by blast
qed

lemma upper_lower_char: "toUpperCase_char (toLowerCase_char ch) = toUpperCase_char ch"
  using of_char_nat_bound [of ch]
  by (auto simp add: toUpperCase_char_def toLowerCase_char_def Let_def char_eval)

lemma hex_digit_lower: "is_hex_digit ch \<Longrightarrow> is_lower_hex (toLowerCase_char ch)"
  using of_char_nat_bound [of ch]
  by (auto simp add: is_hex_digit_def unhex_def is_lower_hex_def toLowerCase_char_def Let_def
      char_eval split: if_splits)

lemma hex_digit_upper_not_colon: "is_hex_digit ch \<Longrightarrow> toUpperCase_char ch \<noteq> CHR '':''"
  using of_char_nat_bound [of ch]
  by (auto simp add: is_hex_digit_def unhex_def toUpperCase_char_def Let_def
      char_eval split: if_splits)

lemma colon_facts:
  "toUpperCase_char CHR '':'' = CHR '':''" "toLowerCase_char CHR '':'' = CHR '':''"
  "\<not> is_lower_hex CHR '':''"
  by (simp_all add: toUpperCase_char_def toLowerCase_char_def is_lower_hex_def)

lemma colon_separated_normal_form:
  "colon_separated d \<Longrightarrow>
     strip_colons (toUpperCase d) = toUpperCase (strip_non_hex (toLowerCase d))"
proof (induction d)
  case Nil
  show ?case by (simp add: strip_colons_def toUpperCase_def strip_non_hex_def toLowerCase_def)
next
  case (Cons ch d)
  then have IH: "strip_colons (toUpperCase d) = toUpperCase (strip_non_hex (toLowerCase d))"
    by (simp add: colon_separated_def)
  from Cons.prems have "is_hex_digit ch \<or> ch = CHR '':''"
    by (simp add: colon_separated_def)
  then show ?case
  proof
    assume h: "is_hex_digit ch"
    from hex_digit_lower [OF h] hex_digit_upper_not_colon [OF h] IH show ?thesis
      by (simp add: strip_colons_def toUpperCase_def strip_non_hex_def toLowerCase_def
          upper_lower_char)
  next
    assume "ch = CHR '':''"
    with IH show ?thesis
      by (simp add: strip_colons_def toUpperCase_def strip_non_hex_def toLowerCase_def
          colon_facts)
  qed
qed

subsection \<open>C6: comparing addresses\<close>

text \<open>
  C6, amended. For two textual representations of the same hardware address (their
  normalized keys are equal), one configured as \<^verbatim>\<open>mac_address\<close> with any case and any
  punctuation, the other discovered and written with hex digits of any case and no
  punctuation other than colons, the comparison of the discovery loop declares a
  match, and the loop takes that address.
\<close>

theorem colon_separated_address_matches:
  assumes "colon_separated d" and "normalize_mac (Some d) = normalize_mac m"
  shows "address_matches d (normalize_mac m)
       \<and> first_match (normalize_mac m) (d # rest) = Some d
       \<and> (constructor_index cfg = Inr c \<and> mac_address cfg = m \<longrightarrow> address_matches d (macAddress c))
       \<and> (constructor_part0 cfg = Inr c' \<and> mac_address cfg = m \<longrightarrow> address_matches d (macAddress c'))"
proof -
  have m: "address_matches d (normalize_mac m)"
    using colon_separated_normal_form [OF assms(1)] assms(2)
    by (simp add: address_matches_def normalize_mac_def)
  moreover have "constructor_index cfg = Inr c \<Longrightarrow> macAddress c = normalize_mac (mac_address cfg)"
    by (auto simp: constructor_index_def split: option.splits)
  moreover have "constructor_part0 cfg = Inr c' \<Longrightarrow> macAddress c' = normalize_mac (mac_address cfg)"
    by (auto simp: constructor_part0_def split: option.splits)
  ultimately show ?thesis by auto
qed

text \<open>
  C6 as stated fails: the loop strips only colons from a discovered address, so a
  discovered \<^verbatim>\<open>Aa-Bb-Cc-Dd-Ee-Ff\<close> does not match a configured \<^verbatim>\<open>AA:BB:CC:DD:EE:FF\<close>,
  although both have the same normalized key.
\<close>

theorem dashes_in_a_discovered_address:
  "normalize_mac (Some ''Aa-Bb-Cc-Dd-Ee-Ff'') = normalize_mac (Some ''AA:BB:CC:DD:EE:FF'')
   \<and> \<not> address_matches ''Aa-Bb-Cc-Dd-Ee-Ff'' (normalize_mac (Some ''AA:BB:CC:DD:EE:FF''))
   \<and> first_match (normalize_mac (Some ''AA:BB:CC:DD:EE:FF'')) [''Aa-Bb-Cc-Dd-Ee-Ff''] = None"
  by (simp add: normalize_mac_def address_matches_def char_defs)

theorem colon_separated_address_matches_witness:
  "colon_separated ''aa:bb:CC:dd:ee:ff''
   \<and> normalize_mac (Some ''aa:bb:CC:dd:ee:ff'') = normalize_mac (mac_address demo_config)
   \<and> constructor_index demo_config = Inr (projr (constructor_index demo_config))
   \<and> constructor_part0 demo_config = Inr (projr (constructor_part0 demo_config))
   \<and> address_matches ''aa:bb:CC:dd:ee:ff'' (normalize_mac (mac_address demo_config))
   \<and> first_match (normalize_mac (mac_address demo_config)) [''aa:bb:CC:dd:ee:ff'']
       = Some ''aa:bb:CC:dd:ee:ff''
   \<and> address_matches ''aa:bb:CC:dd:ee:ff'' (macAddress (projr (constructor_index demo_config)))
   \<and> address_matches ''aa:bb:CC:dd:ee:ff'' (macAddress (projr (constructor_part0 demo_config)))"
proof -
  have a: "colon_separated ''aa:bb:CC:dd:ee:ff''"
    by (simp add: colon_separated_def is_hex_digit_def unhex_def)
  have b: "normalize_mac (Some ''aa:bb:CC:dd:ee:ff'') = normalize_mac (mac_address demo_config)"
    by (simp add: normalize_mac_def demo_config_def char_defs)
  from colon_separated_address_matches [OF a b, of "[]" demo_config
         "projr (constructor_index demo_config)" "projr (constructor_part0 demo_config)"]
       a b demo_constructed
  show ?thesis by blast
qed

subsection \<open>The link invariant\<close>

lemmas connect_index_defs = connectDevice_index_def connect_try_index_def
      connect_begin_def connect_resolve_def once_disconnect_def

lemma write_loop_link: "link_inv (state_of (write_loop ty w i c)) = link_inv c"
proof -
  have "link_inv (state_of (write_loop ty w i c))
      = link_inv (c\<lparr>trace := trace (state_of (write_loop ty w i c))\<rparr>)"
    using write_loop_frame [of ty w i c] by simp
  then show ?thesis by (simp add: link_inv_def)
qed

lemma connectDevice_index_link:
  "link_inv c \<Longrightarrow> \<not> isConnected c \<Longrightarrow> link_inv (state_of (connectDevice_index env c))"
  by (auto simp: link_inv_def connect_index_defs prim_defs Let_def
      split: option.splits sum.splits if_splits)

lemma connectDevice_part0_link:
  "link_inv c \<Longrightarrow> \<not> isConnected c \<Longrightarrow> link_inv (state_of (connectDevice_part0 env c))"
  by (auto simp: link_inv_def connect_part0_defs prim_defs Let_def
      split: option.splits sum.splits if_splits)

lemma scan_round_link:
  assumes "\<And>env c. link_inv c \<Longrightarrow> \<not> isConnected c \<Longrightarrow> link_inv (state_of (f env c))"
    and "link_inv c"
  shows "link_inv (scan_round f d env c)"
proof (cases "isConnected c")
  case True
  with assms(2) show ?thesis
    by (simp add: scan_round_def link_inv_def prim_defs)
next
  case False
  have "link_inv (state_of (scan_try f env c))"
  proof (cases "start_res env"; cases "stop_after_res env"; cases "devices_res env")
  qed (insert assms False, auto simp: scan_try_def scan_find_def Let_def prim_defs link_inv_def split: option.splits)
  then show ?thesis using False
    by (auto simp: scan_round_def link_inv_def prim_defs split: outcome.splits)
qed

lemma handleSetOn_index_link:
  assumes "link_inv c"
  shows "link_inv (state_of (handleSetOn_index v w c))"
proof -
  let ?c1 = "emit (Log LInfo MsgSendStart) c"
  have "link_inv (state_of (write_loop Command w 0 ?c1))"
    using assms by (simp add: write_loop_link) (simp add: link_inv_def emit_def)
  then show ?thesis using assms
    by (cases "write_loop Command w 0 ?c1")
       (auto simp: handleSetOn_index_def Let_def link_inv_def prim_defs)
qed

lemma handleSetOn_part0_link:
  assumes "link_inv c"
  shows "link_inv (state_of (handleSetOn_part0 v env w c))"
proof (cases v)
  case False
  with assms show ?thesis by (simp add: handleSetOn_part0_def)
next
  case True
  let ?r = "if \<not> isConnected c \<or> writeChar c = None
            then connectDevice_part0 env (emit (Log LInfo MsgReconnectNow) c)
            else Returned () c"
  have e: "link_inv (emit (Log LInfo MsgReconnectNow) c)"
    using assms by (simp add: link_inv_def emit_def)
  have r: "link_inv (state_of ?r)"
  proof (cases "\<not> isConnected c \<or> writeChar c = None")
    case False
    with assms show ?thesis by auto
  next
    case True
    with assms have "\<not> isConnected (emit (Log LInfo MsgReconnectNow) c)"
      by (auto simp: link_inv_def emit_def)
    from connectDevice_part0_link [OF e this] True show ?thesis by simp
  qed
  show ?thesis
  proof (cases ?r)
    case (Threw e c')
    with r True show ?thesis
      by (simp add: handleSetOn_part0_def Let_def link_inv_def prim_defs)
  next
    case (Returned u c1)
    let ?c2 = "sleep 300 (emit (Log LInfo MsgSendStart)
                (case heartbeatTimer c1 of None \<Rightarrow> c1 | Some t \<Rightarrow> clearInterval t c1))"
    from r Returned have "link_inv ?c2"
      by (auto simp: link_inv_def prim_defs split: option.splits)
    then have "link_inv (state_of (write_loop Request w 0 ?c2))"
      by (simp add: write_loop_link)
    then show ?thesis using True Returned
      by (cases "write_loop Request w 0 ?c2")
         (auto simp: handleSetOn_part0_def Let_def link_inv_def prim_defs
            startHeartbeat_def split: option.splits)
  qed
qed

lemma disconnect_index_link:
  "link_inv c \<Longrightarrow> link_inv (device_emits_disconnect on_disconnect_index c)"
  by (cases "isConnected c")
     (auto simp: link_inv_def device_emits_disconnect_def on_disconnect_index_def emit_def)

lemma disconnect_part0_link:
  "link_inv c \<Longrightarrow> link_inv (device_emits_disconnect on_disconnect_part0 c)"
  by (cases "isConnected c")
     (auto simp: link_inv_def device_emits_disconnect_def on_disconnect_part0_def prim_defs
        Let_def split: option.splits)

lemma apply_op_index_link: "link_inv c \<Longrightarrow> link_inv (apply_op_index x c)"
proof (cases x)
  case (ScanRound env)
  assume "link_inv c"
  then show ?thesis using ScanRound
    by (simp add: apply_op_index_def scan_round_link [OF connectDevice_index_link])
next
  case DeviceDisconnect
  assume "link_inv c"
  then show ?thesis using DeviceDisconnect
    by (simp add: apply_op_index_def disconnect_index_link)
next
  case (SetOn v env w)
  assume "link_inv c"
  then show ?thesis using SetOn by (simp add: apply_op_index_def handleSetOn_index_link)
qed (auto simp: apply_op_index_def initNodeBle_def fire_timeout_def run_timer_def link_inv_def
       prim_defs split: option.splits timer_action.splits)

lemma apply_op_part0_link: "link_inv c \<Longrightarrow> link_inv (apply_op_part0 x c)"
proof (cases x)
  case (ScanRound env)
  assume "link_inv c"
  then show ?thesis using ScanRound
    by (simp add: apply_op_part0_def scan_round_link [OF connectDevice_part0_link])
next
  case DeviceDisconnect
  assume "link_inv c"
  then show ?thesis using DeviceDisconnect
    by (simp add: apply_op_part0_def disconnect_part0_link)
next
  case (SetOn v env w)
  assume "link_inv c"
  then show ?thesis using SetOn by (simp add: apply_op_part0_def handleSetOn_part0_link)
qed (auto simp: apply_op_part0_def initNodeBle_def fire_timeout_def run_timer_def link_inv_def
       heartbeat_tick_def prim_defs split: option.splits timer_action.splits)

lemma run_index_link: "link_inv c \<Longrightarrow> link_inv (run_index ops c)"
  by (induction ops arbitrary: c) (auto simp: apply_op_index_link)

lemma run_part0_link: "link_inv c \<Longrightarrow> link_inv (run_part0 ops c)"
  by (induction ops arbitrary: c) (auto simp: apply_op_part0_link)

lemma constructor_index_link: "constructor_index cfg = Inr c \<Longrightarrow> link_inv c"
  by (auto simp: constructor_index_def link_inv_def split: option.splits)

lemma constructor_part0_link: "constructor_part0 cfg = Inr c \<Longrightarrow> link_inv c"
  by (auto simp: constructor_part0_def link_inv_def split: option.splits)

subsection \<open>C7: the write handle and the connected flag\<close>

text \<open>
  C7, amended. In every state that the controller's operations reach from
  construction when each operation runs to its end before the next one starts (so
  that no activation request and no second connect sequence runs inside the settle
  wait of a connect sequence), the write handle is set only while \<open>isConnected\<close> is
  true, and the disconnect callback clears \<open>isConnected\<close> and the write handle
  together. Both files.
\<close>

theorem write_handle_only_while_connected:
  "(constructor_index cfg = Inr c \<longrightarrow>
      handle_only_while_connected on_disconnect_index (run_index ops c))
   \<and> (constructor_part0 cfg' = Inr c' \<longrightarrow>
      handle_only_while_connected on_disconnect_part0 (run_part0 ops' c'))"
proof (intro conjI impI)
  assume "constructor_index cfg = Inr c"
  then have "link_inv (run_index ops c)"
    by (intro run_index_link constructor_index_link)
  then show "handle_only_while_connected on_disconnect_index (run_index ops c)"
    by (auto simp: handle_only_while_connected_def link_inv_def on_disconnect_index_def emit_def)
next
  assume "constructor_part0 cfg' = Inr c'"
  then have "link_inv (run_part0 ops' c')"
    by (intro run_part0_link constructor_part0_link)
  then show "handle_only_while_connected on_disconnect_part0 (run_part0 ops' c')"
    by (auto simp: handle_only_while_connected_def link_inv_def on_disconnect_part0_def prim_defs
        Let_def split: option.splits)
qed

lemma connectDevice_part0_cut:
  "connectDevice_part0 env c =
     and_then (connect_until_settle_part0 env c) (\<lambda>_ s. connect_after_settle_part0 env s)"
  by (cases "connect_begin env c")
     (simp_all add: connectDevice_part0_def connect_try_part0_def connect_until_settle_part0_def
        connect_after_settle_part0_def)

text \<open>
  C7 as stated fails on \<^verbatim>\<open>src/unnamed/part_000\<close>, where nothing keeps the handler's
  connect sequence out of the loop's. At the settle wait of the loop's sequence
  \<open>isConnected\<close> is true and the write handle is not set, so the handler's guard
  sends it into \<^verbatim>\<open>connectDevice\<close>; in the state \<open>raced_part0\<close> that results, the
  write handle is set and \<open>isConnected\<close> is false.
\<close>

theorem overlapping_connects_leave_a_stale_handle:
  "isConnected settling_part0 \<and> writeChar settling_part0 = None
   \<and> writeChar raced_part0 = Some 1 \<and> \<not> isConnected raced_part0"
  by (simp add: raced_part0_def settling_part0_def connect_after_settle_part0_def connect_until_settle_part0_def
      handleSetOn_part0_def unreachable_ble_def dropped_part0_def device_emits_disconnect_def
      on_disconnect_part0_def demo_defs run_defs char_defs prim_defs Let_def)

lemma emits_disconnect_unobserved:
  "disconnectListeners s = 0 \<Longrightarrow> device_emits_disconnect callback s = s"
  by (cases s) (simp add: device_emits_disconnect_def)

lemma connect_begin_Returned:
  "connect_begin env c = Returned u s \<Longrightarrow>
     disconnectListeners s = disconnectListeners c \<and> isConnected s"
  by (auto simp: connect_begin_def prim_defs Let_def split: option.splits)

lemma observer_discipline_settle:
  "(case connect_begin env c of
      Threw e s \<Rightarrow> True
    | Returned u s \<Rightarrow>
        disconnectListeners s = disconnectListeners c
      \<and> (disconnectListeners c = 0 \<longrightarrow>
            isConnected s \<and> device_emits_disconnect callback s = s))"
  using connect_begin_Returned [of env c]
  by (auto simp: emits_disconnect_unobserved split: outcome.splits)

lemma observer_discipline_index:
  "observer_discipline connectDevice_index on_disconnect_index env c"
  unfolding observer_discipline_def Let_def
  apply (intro conjI observer_discipline_settle)
   apply (auto simp: connect_index_defs prim_defs Let_def split: option.splits sum.splits)
  done

lemma observer_discipline_part0:
  "observer_discipline connectDevice_part0 on_disconnect_part0 env c"
  unfolding observer_discipline_def Let_def
  apply (intro conjI observer_discipline_settle)
   apply (auto simp: connect_part0_defs prim_defs Let_def split: option.splits sum.splits)
  done

theorem write_handle_only_while_connected_witness:
  "constructor_index demo_config = Inr (projr (constructor_index demo_config))
   \<and> constructor_part0 demo_config = Inr (projr (constructor_part0 demo_config))
   \<and> handle_only_while_connected on_disconnect_index pushed_index
   \<and> handle_only_while_connected on_disconnect_part0 pushed_part0
   \<and> writeChar pushed_index \<noteq> None \<and> isConnected pushed_index
   \<and> writeChar pushed_part0 \<noteq> None \<and> isConnected pushed_part0"
proof -
  have s: "writeChar pushed_index \<noteq> None" "writeChar pushed_part0 \<noteq> None"
    by (simp_all add: pushed_index_def pushed_part0_def demo_ops_def demo_defs run_defs
        handler_defs char_defs prim_defs Let_def)
  from write_handle_only_while_connected
         [of demo_config "projr (constructor_index demo_config)" demo_ops
             demo_config "projr (constructor_part0 demo_config)" demo_ops]
  have "handle_only_while_connected on_disconnect_index pushed_index
      \<and> handle_only_while_connected on_disconnect_part0 pushed_part0"
    unfolding pushed_index_def pushed_part0_def using demo_constructed by blast
  with s demo_constructed show ?thesis
    unfolding handle_only_while_connected_def by blast
qed

subsection \<open>C10: when the disconnect observer is registered\<close>

lemma settle_unobserved_link:
  assumes "link_inv c"
  shows "settle_unobserved callback env c"
proof (cases "\<not> isConnected c \<or> writeChar c = None")
  case False
  then show ?thesis by (auto simp: settle_unobserved_def)
next
  case True
  with assms have z: "disconnectListeners c = 0"
    by (auto simp: link_inv_def)
  show ?thesis
  proof (cases "connect_begin env c")
    case (Threw e s)
    then show ?thesis by (simp add: settle_unobserved_def)
  next
    case (Returned u s)
    from connect_begin_Returned [OF this] z
    have "isConnected s" "disconnectListeners s = 0" by simp_all
    with Returned show ?thesis
      by (simp add: settle_unobserved_def emits_disconnect_unobserved)
  qed
qed

lemma raced_part0_state:
  "disconnectListeners raced_part0 = 1" "\<not> isConnected raced_part0"
  "device raced_part0 = Some ''AA:BB:CC:DD:EE:FF''"
  by (simp_all add: raced_part0_def settling_part0_def connect_after_settle_part0_def
      connect_until_settle_part0_def handleSetOn_part0_def unreachable_ble_def dropped_part0_def
      device_emits_disconnect_def on_disconnect_part0_def demo_defs run_defs char_defs prim_defs
      Let_def)

lemma raced_begin:
  "connect_begin unresolved_ble raced_part0 =
     Returned () (emit DeviceGatt ((emit DeviceConnect
        (emit (Log LInfo MsgConnecting) raced_part0))\<lparr>isConnected := True\<rparr>))"
  using raced_part0_state
  by (simp add: connect_begin_def unresolved_ble_def demo_ble_def prim_defs)

text \<open>
  C10 as stated fails on \<^verbatim>\<open>src/unnamed/part_000\<close>. In the state \<open>raced_part0\<close>, which
  overlapping connect sequences leave behind, \<open>isConnected\<close> is false and the
  listener of the earlier sequence is still registered. The next connect sequence,
  whose transport connect succeeds and whose service does not resolve, is at its
  settle wait with \<open>isConnected\<close> true; a \<^verbatim>\<open>'disconnect'\<close> emitted then runs that
  listener and clears \<open>isConnected\<close>: the controller observes it.
\<close>

theorem stale_observer_sees_the_disconnect:
  "\<not> isConnected raced_part0 \<and> disconnectListeners raced_part0 = 1
   \<and> connect_res unresolved_ble = None \<and> service_res unresolved_ble \<noteq> None
   \<and> connect_begin unresolved_ble raced_part0
       = Returned () (state_of (connect_begin unresolved_ble raced_part0))
   \<and> isConnected (state_of (connect_begin unresolved_ble raced_part0))
   \<and> \<not> isConnected (device_emits_disconnect on_disconnect_part0
          (state_of (connect_begin unresolved_ble raced_part0)))"
proof -
  let ?s = "emit DeviceGatt ((emit DeviceConnect
        (emit (Log LInfo MsgConnecting) raced_part0))\<lparr>isConnected := True\<rparr>)"
  have e: "connect_res unresolved_ble = None" "service_res unresolved_ble \<noteq> None"
    by (simp_all add: unresolved_ble_def demo_ble_def)
  have s: "state_of (connect_begin unresolved_ble raced_part0) = ?s"
    by (simp add: raced_begin)
  have c: "isConnected ?s"
    by (simp add: emit_def)
  have "disconnectListeners ?s = Suc 0"
    using raced_part0_state by (simp add: emit_def)
  then have o: "\<not> isConnected (device_emits_disconnect on_disconnect_part0 ?s)"
    by (simp add: device_emits_disconnect_def on_disconnect_part0_def prim_defs Let_def
        split: option.splits)
  from raced_part0_state e c o show ?thesis
    unfolding s by (simp add: raced_begin)
qed

text \<open>
  C10, amended. In every run of the connect sequence the one-shot disconnect
  observer is registered only after the write characteristic has been resolved. So
  when the transport connect succeeds and the service or the characteristic does
  not resolve, that run installs no observer, and by its settle wait it has
  installed none. When the run starts in a state that the controller's operations
  reach from construction, each run to its end before the next starts (so that no
  observer of an earlier run is still registered), a \<^verbatim>\<open>'disconnect'\<close> that the device
  emits during the settle wait reaches no callback and leaves the controller as it
  is, \<open>isConnected\<close> still true. Both files.
\<close>

theorem disconnect_observer_registered_last:
  "observer_discipline connectDevice_index on_disconnect_index env c
   \<and> observer_discipline connectDevice_part0 on_disconnect_part0 env c
   \<and> (constructor_index cfg = Inr c0 \<longrightarrow>
        settle_unobserved on_disconnect_index env (run_index ops c0))
   \<and> (constructor_part0 cfg' = Inr c0' \<longrightarrow>
        settle_unobserved on_disconnect_part0 env (run_part0 ops' c0'))"
  using observer_discipline_index observer_discipline_part0
    settle_unobserved_link [OF run_index_link [OF constructor_index_link]]
    settle_unobserved_link [OF run_part0_link [OF constructor_part0_link]]
  by blast

lemma dropped_as_runs:
  "dropped_index = run_index [InitBle None, ScanRound demo_scan, DeviceDisconnect]
      (projr (constructor_index demo_config))"
  "dropped_part0 = run_part0 [InitBle None, ScanRound demo_scan, DeviceDisconnect]
      (projr (constructor_part0 demo_config))"
  by (simp_all add: dropped_index_def dropped_part0_def connected_index_def connected_part0_def)

lemma dropped_part0_listeners: "disconnectListeners dropped_part0 = 0"
  by (simp add: dropped_part0_def device_emits_disconnect_def on_disconnect_part0_def
      demo_defs run_defs char_defs prim_defs Let_def)

lemma unresolved_begin:
  "connect_begin unresolved_ble dropped_part0 =
     Returned () (emit DeviceGatt ((emit DeviceConnect
        (emit (Log LInfo MsgConnecting) dropped_part0))\<lparr>isConnected := True\<rparr>))"
  using dropped_state
  by (simp add: connect_begin_def unresolved_ble_def demo_ble_def prim_defs)

lemma demo_connect_registers:
  "OnceDisconnect \<in> set (events_since dropped_part0
      (state_of (connectDevice_part0 demo_ble dropped_part0)))"
  using dropped_state
  by (cases "heartbeatTimer dropped_part0")
     (simp_all add: connect_part0_defs demo_ble_def prim_defs Let_def)

theorem disconnect_observer_registered_last_witness:
  "connect_res unresolved_ble = None \<and> service_res unresolved_ble \<noteq> None
   \<and> disconnectListeners dropped_part0 = 0
   \<and> OnceDisconnect \<in> set (events_since dropped_part0
        (state_of (connectDevice_part0 demo_ble dropped_part0)))
   \<and> \<not> isl (writeChar_res demo_ble)
   \<and> OnceDisconnect \<notin> set (events_since dropped_part0
        (state_of (connectDevice_part0 unresolved_ble dropped_part0)))
   \<and> OnceDisconnect \<notin> set (events_since dropped_part0
        (state_of (connectDevice_index unresolved_ble dropped_part0)))
   \<and> constructor_index demo_config = Inr (projr (constructor_index demo_config))
   \<and> constructor_part0 demo_config = Inr (projr (constructor_part0 demo_config))
   \<and> \<not> isConnected dropped_index \<and> \<not> isConnected dropped_part0
   \<and> settle_unobserved on_disconnect_index unresolved_ble dropped_index
   \<and> settle_unobserved on_disconnect_part0 unresolved_ble dropped_part0
   \<and> isConnected (state_of (connect_begin unresolved_ble dropped_part0))
   \<and> device_emits_disconnect on_disconnect_part0
        (state_of (connect_begin unresolved_ble dropped_part0))
       = state_of (connect_begin unresolved_ble dropped_part0)"
proof -
  have h: "connect_res unresolved_ble = None" "service_res unresolved_ble \<noteq> None"
    by (simp_all add: unresolved_ble_def demo_ble_def)
  obtain s where r: "connect_begin unresolved_ble dropped_part0 = Returned () s"
    using unresolved_begin by blast
  note T = disconnect_observer_registered_last
             [where env = unresolved_ble and c = dropped_part0 and cfg = demo_config
                and ?c0.0 = "projr (constructor_index demo_config)"
                and ops = "[InitBle None, ScanRound demo_scan, DeviceDisconnect]"
                and cfg' = demo_config and c0' = "projr (constructor_part0 demo_config)"
                and ops' = "[InitBle None, ScanRound demo_scan, DeviceDisconnect]"]
  from T
  have p: "observer_discipline connectDevice_part0 on_disconnect_part0 unresolved_ble dropped_part0"
    and i: "observer_discipline connectDevice_index on_disconnect_index unresolved_ble dropped_part0"
    by blast+
  from T demo_constructed
  have u: "settle_unobserved on_disconnect_index unresolved_ble dropped_index"
    "settle_unobserved on_disconnect_part0 unresolved_ble dropped_part0"
    unfolding dropped_as_runs by blast+
  from p h have a: "OnceDisconnect \<notin> set (events_since dropped_part0
               (state_of (connectDevice_part0 unresolved_ble dropped_part0)))"
    unfolding observer_discipline_def Let_def by blast
  from i h have b: "OnceDisconnect \<notin> set (events_since dropped_part0
               (state_of (connectDevice_index unresolved_ble dropped_part0)))"
    unfolding observer_discipline_def Let_def by blast
  from u(2) dropped_state(3) r
  have c: "isConnected s \<and> device_emits_disconnect on_disconnect_part0 s = s"
    unfolding settle_unobserved_def by simp
  from disconnect_observer_registered_last [where env = demo_ble and c = dropped_part0]
    demo_connect_registers
  have d: "\<not> isl (writeChar_res demo_ble)"
    unfolding observer_discipline_def Let_def by blast
  from h dropped_part0_listeners demo_connect_registers a b c d r u demo_constructed
    dropped_state(1,3)
  show ?thesis by simp
qed

lemma register_devices_index_controllers:
  "thrown r = None \<Longrightarrow>
   controllers (register_devices_index ds r)
     = controllers r @ map (\<lambda>cfg. projr (constructor_index cfg)) (takeWhile entry_ok_index ds)
   \<and> (thrown (register_devices_index ds r) = None \<longleftrightarrow> list_all entry_ok_index ds)"
proof (induction ds arbitrary: r)
  case Nil
  then show ?case by simp
next
  case (Cons cfg ds)
  show ?case
  proof (cases "constructor_index cfg")
    case (Inl e)
    then show ?thesis by (simp add: entry_ok_index_def Let_def)
  next
    case (Inr c)
    let ?r = "r\<lparr>platform_log := platform_log r @ [Log LInfo (MsgRegistering (name cfg))],
                controllers := controllers r @ [c]\<rparr>"
    have "thrown ?r = None" using Cons.prems by simp
    from Cons.IH [OF this] Inr show ?thesis
      by (simp add: entry_ok_index_def Let_def)
  qed
qed

lemma register_devices_part0_controllers:
  "thrown r = None \<Longrightarrow>
   controllers (register_devices_part0 host ds r)
     = controllers r @ map (\<lambda>cfg. projr (constructor_part0 cfg)) (takeWhile (entry_ok_part0 host) ds)
   \<and> (thrown (register_devices_part0 host ds r) = None \<longleftrightarrow> list_all (entry_ok_part0 host) ds)"
proof (induction ds arbitrary: r)
  case Nil
  then show ?case by simp
next
  case (Cons cfg ds)
  show ?case
  proof (cases "host cfg")
    case (Some e)
    then show ?thesis by (simp add: entry_ok_part0_def Let_def)
  next
    case None
    show ?thesis
    proof (cases "constructor_part0 cfg")
      case (Inl e)
      with None show ?thesis by (simp add: entry_ok_part0_def Let_def)
    next
      case (Inr c)
      let ?r = "r\<lparr>platform_log := platform_log r @ [Log LInfo (MsgRegistering (name cfg))],
                  controllers := controllers r @ [c],
                  registered := registered r @ [name cfg]\<rparr>"
      have "thrown ?r = None" using Cons.prems by simp
      from Cons.IH [OF this] Inr None show ?thesis
        by (simp add: entry_ok_part0_def Let_def)
    qed
  qed
qed

subsection \<open>C8: the registry\<close>

text \<open>
  C8, amended. For every configuration list the registry constructs the controllers
  in list order, one per entry, up to the first entry whose registration throws;
  that error leaves \<^verbatim>\<open>discoverDevices\<close>, and neither that entry nor any later one gets a
  controller. When no entry throws there is one controller per entry, in list order.
  Both files.
\<close>

theorem registry_stops_at_first_error:
  "controllers (discoverDevices_index (Some ds))
     = map (\<lambda>cfg. projr (constructor_index cfg)) (takeWhile entry_ok_index ds)
   \<and> (thrown (discoverDevices_index (Some ds)) = None \<longleftrightarrow> list_all entry_ok_index ds)
   \<and> controllers (discoverDevices_part0 host (Some ds))
     = map (\<lambda>cfg. projr (constructor_part0 cfg)) (takeWhile (entry_ok_part0 host) ds)
   \<and> (thrown (discoverDevices_part0 host (Some ds)) = None \<longleftrightarrow> list_all (entry_ok_part0 host) ds)"
  using register_devices_index_controllers [of empty_registry ds]
    register_devices_part0_controllers [of empty_registry host ds]
  by (simp add: discoverDevices_index_def discoverDevices_part0_def empty_registry_def)

text \<open>
  C8 as stated fails: the loop has no \<^verbatim>\<open>try\<close>. With a first entry that lacks
  \<^verbatim>\<open>service_uuid\<close> the constructor throws a TypeError, and the second entry, which
  constructs on its own, gets no controller.
\<close>

theorem one_throwing_entry_ends_registration:
  "\<not> isl (constructor_index demo_config) \<and> \<not> isl (constructor_part0 demo_config)
   \<and> controllers (discoverDevices_index (Some [broken_config, demo_config])) = []
   \<and> thrown (discoverDevices_index (Some [broken_config, demo_config])) = Some TypeError
   \<and> controllers (discoverDevices_part0 host_ok (Some [broken_config, demo_config])) = []
   \<and> thrown (discoverDevices_part0 host_ok (Some [broken_config, demo_config])) = Some TypeError"
  by (simp add: discoverDevices_index_def discoverDevices_part0_def empty_registry_def
      broken_config_def demo_config_def host_ok_def constructor_index_def constructor_part0_def
      Let_def)

theorem registry_stops_at_first_error_witness:
  "list_all entry_ok_index [demo_config, demo_config\<lparr>name := None\<rparr>]
   \<and> thrown (discoverDevices_index (Some [demo_config, demo_config\<lparr>name := None\<rparr>])) = None
   \<and> map displayName (controllers (discoverDevices_index (Some [demo_config, demo_config\<lparr>name := None\<rparr>])))
       = [''Bot'', ''PushBot'']
   \<and> list_all (entry_ok_part0 host_ok) [demo_config, demo_config\<lparr>name := None\<rparr>]
   \<and> thrown (discoverDevices_part0 host_ok (Some [demo_config, demo_config\<lparr>name := None\<rparr>])) = None
   \<and> map displayName (controllers (discoverDevices_part0 host_ok (Some [demo_config, demo_config\<lparr>name := None\<rparr>])))
       = [''Bot'', ''PushBot'']"
proof -
  have a: "list_all entry_ok_index [demo_config, demo_config\<lparr>name := None\<rparr>]"
    by (simp add: entry_ok_index_def constructor_index_def demo_config_def)
  have b: "list_all (entry_ok_part0 host_ok) [demo_config, demo_config\<lparr>name := None\<rparr>]"
    by (simp add: entry_ok_part0_def host_ok_def constructor_part0_def demo_config_def)
  have c: "takeWhile entry_ok_index [demo_config, demo_config\<lparr>name := None\<rparr>]
             = [demo_config, demo_config\<lparr>name := None\<rparr>]"
    "takeWhile (entry_ok_part0 host_ok) [demo_config, demo_config\<lparr>name := None\<rparr>]
             = [demo_config, demo_config\<lparr>name := None\<rparr>]"
    using a b by simp_all
  have d: "displayName (projr (constructor_index demo_config)) = ''Bot''"
    "displayName (projr (constructor_index (demo_config\<lparr>name := None\<rparr>))) = ''PushBot''"
    "displayName (projr (constructor_part0 demo_config)) = ''Bot''"
    "displayName (projr (constructor_part0 (demo_config\<lparr>name := None\<rparr>))) = ''PushBot''"
    by (simp_all add: constructor_index_def constructor_part0_def demo_config_def name_or_default_def)
  from registry_stops_at_first_error [of "[demo_config, demo_config\<lparr>name := None\<rparr>]" host_ok]
  show ?thesis using a b by (simp add: c d)
qed

subsection \<open>The heartbeat\<close>

lemma heartbeat_follows_notify_part0: "heartbeat_follows_notify env c"
  unfolding heartbeat_follows_notify_def Let_def
  by (cases "heartbeatTimer c")
     (auto simp: link_resolves_def notify_resolves_def heartbeat_started_def
        connect_part0_defs prim_defs Let_def split: option.splits sum.splits)

lemma constructor_part0_with_notify:
  assumes "service_uuid cfg \<noteq> None" "write_uuid cfg \<noteq> None" "push_packet_hex cfg \<noteq> None"
    "notify_uuid cfg \<noteq> None"
  shows "\<not> isl (constructor_part0 cfg)
       \<and> heartbeatTimer (projr (constructor_part0 cfg)) = None
       \<and> intervals (projr (constructor_part0 cfg)) = []"
  using assms by (auto simp: constructor_part0_def)

lemma constructor_index_ignores_notify:
  "constructor_index (cfg\<lparr>notify_uuid := x\<rparr>) = constructor_index cfg"
  by (simp add: constructor_index_def split: option.splits)

lemma write_loop_no_heartbeat: "no_heartbeat (state_of (write_loop ty w i c)) = no_heartbeat c"
proof -
  have "no_heartbeat (state_of (write_loop ty w i c))
      = no_heartbeat (c\<lparr>trace := trace (state_of (write_loop ty w i c))\<rparr>)"
    using write_loop_frame [of ty w i c] by simp
  then show ?thesis by (simp add: no_heartbeat_def)
qed

lemma connectDevice_index_no_heartbeat:
  "no_heartbeat c \<Longrightarrow> no_heartbeat (state_of (connectDevice_index env c))"
  by (auto simp: no_heartbeat_def connect_index_defs prim_defs Let_def
      split: option.splits sum.splits)

lemma scan_round_index_no_heartbeat:
  assumes "no_heartbeat c"
  shows "no_heartbeat (scan_round connectDevice_index d env c)"
proof (cases "isConnected c")
  case True
  with assms show ?thesis
    by (simp add: scan_round_def no_heartbeat_def prim_defs)
next
  case False
  have "no_heartbeat (state_of (scan_try connectDevice_index env c))"
  proof (cases "start_res env"; cases "stop_after_res env"; cases "devices_res env")
  qed (insert assms connectDevice_index_no_heartbeat,
       auto simp: scan_try_def scan_find_def Let_def prim_defs no_heartbeat_def split: option.splits)
  then show ?thesis using False
    by (auto simp: scan_round_def no_heartbeat_def prim_defs split: outcome.splits)
qed

lemma handleSetOn_index_no_heartbeat:
  assumes "no_heartbeat c"
  shows "no_heartbeat (state_of (handleSetOn_index v w c))"
proof -
  let ?c1 = "emit (Log LInfo MsgSendStart) c"
  have "no_heartbeat (state_of (write_loop Command w 0 ?c1))"
    using assms by (simp add: write_loop_no_heartbeat) (simp add: no_heartbeat_def emit_def)
  then show ?thesis using assms
    by (cases "write_loop Command w 0 ?c1")
       (auto simp: handleSetOn_index_def Let_def no_heartbeat_def prim_defs)
qed

lemma funpow_no_heartbeat:
  assumes "\<And>c. no_heartbeat c \<Longrightarrow> no_heartbeat (f c)" "no_heartbeat c"
  shows "no_heartbeat ((f ^^ n) c)"
  using assms by (induction n) auto

lemma apply_op_index_no_heartbeat: "no_heartbeat c \<Longrightarrow> no_heartbeat (apply_op_index x c)"
proof (cases x)
  case (ScanRound env)
  assume "no_heartbeat c"
  then show ?thesis using ScanRound
    by (simp add: apply_op_index_def scan_round_index_no_heartbeat)
next
  case DeviceDisconnect
  assume a: "no_heartbeat c"
  have "no_heartbeat ((on_disconnect_index ^^ disconnectListeners c) (c\<lparr>disconnectListeners := 0\<rparr>))"
    by (rule funpow_no_heartbeat)
       (insert a, auto simp: on_disconnect_index_def no_heartbeat_def prim_defs)
  then show ?thesis using DeviceDisconnect
    by (simp add: apply_op_index_def device_emits_disconnect_def)
next
  case (SetOn v env w)
  assume "no_heartbeat c"
  then show ?thesis using SetOn by (simp add: apply_op_index_def handleSetOn_index_no_heartbeat)
qed (auto simp: apply_op_index_def initNodeBle_def fire_timeout_def run_timer_def no_heartbeat_def
       prim_defs split: option.splits timer_action.splits)

lemma run_index_no_heartbeat: "no_heartbeat c \<Longrightarrow> no_heartbeat (run_index ops c)"
  by (induction ops arbitrary: c) (auto simp: apply_op_index_no_heartbeat)

lemma constructor_index_no_heartbeat: "constructor_index cfg = Inr c \<Longrightarrow> no_heartbeat c"
  by (auto simp: constructor_index_def no_heartbeat_def split: option.splits)

subsection \<open>C9: the notify id and the heartbeat\<close>

text \<open>
  C9, amended. In \<^verbatim>\<open>src/unnamed/part_000\<close>, for every device configuration that has
  \<^verbatim>\<open>notify_uuid\<close> (and the service id, the write id and the packet), construction
  succeeds with no heartbeat running; a connect sequence on a link that resolves
  then starts the heartbeat when the notify characteristic resolves and the
  subscription succeeds, and otherwise logs, starts none and still completes the
  connection: that failure is not an error. In \<^verbatim>\<open>src/index.js\<close> the field is never
  read: construction does not depend on it, and no operation ever starts a heartbeat.
\<close>

theorem notify_uuid_and_heartbeat:
  "(service_uuid cfg \<noteq> None \<and> write_uuid cfg \<noteq> None \<and> push_packet_hex cfg \<noteq> None
      \<and> notify_uuid cfg \<noteq> None \<longrightarrow>
        \<not> isl (constructor_part0 cfg) \<and> no_heartbeat (projr (constructor_part0 cfg)))
   \<and> heartbeat_follows_notify env c
   \<and> constructor_index (cfg\<lparr>notify_uuid := x\<rparr>) = constructor_index cfg
   \<and> (constructor_index cfg = Inr ci \<longrightarrow> no_heartbeat (run_index ops ci))"
  using constructor_part0_with_notify [of cfg] heartbeat_follows_notify_part0 [of env c]
    constructor_index_ignores_notify [of x cfg]
    run_index_no_heartbeat [OF constructor_index_no_heartbeat, of cfg ci ops]
  by (simp add: no_heartbeat_def)

text \<open>
  C9 as stated fails on \<^verbatim>\<open>src/unnamed/part_000\<close>: line 52 calls \<^verbatim>\<open>toLowerCase\<close> on
  \<^verbatim>\<open>config.notify_uuid\<close>, so the configuration that differs from a working one only in
  lacking \<^verbatim>\<open>notify_uuid\<close> makes the constructor throw a TypeError.
\<close>

theorem absent_notify_uuid_throws:
  "constructor_part0 (demo_config\<lparr>notify_uuid := None\<rparr>) = Inl TypeError
   \<and> \<not> isl (constructor_part0 demo_config)"
  by (simp add: constructor_part0_def demo_config_def)

lemma dropped_link_resolves:
  "link_resolves demo_ble dropped_part0" "link_resolves no_notify_ble dropped_part0"
  "notify_resolves demo_ble" "\<not> notify_resolves no_notify_ble"
  using dropped_state
  by (simp_all add: link_resolves_def notify_resolves_def no_notify_ble_def demo_ble_def)

theorem notify_uuid_and_heartbeat_witness:
  "service_uuid demo_config \<noteq> None \<and> write_uuid demo_config \<noteq> None
   \<and> push_packet_hex demo_config \<noteq> None \<and> notify_uuid demo_config \<noteq> None
   \<and> \<not> isl (constructor_part0 demo_config)
   \<and> no_heartbeat (projr (constructor_part0 demo_config))
   \<and> link_resolves demo_ble dropped_part0 \<and> notify_resolves demo_ble
   \<and> heartbeat_started dropped_part0 (state_of (connectDevice_part0 demo_ble dropped_part0))
   \<and> link_resolves no_notify_ble dropped_part0 \<and> \<not> notify_resolves no_notify_ble
   \<and> isConnected (state_of (connectDevice_part0 no_notify_ble dropped_part0))
   \<and> intervals (state_of (connectDevice_part0 no_notify_ble dropped_part0))
       = intervals dropped_part0
   \<and> constructor_index demo_config = Inr (projr (constructor_index demo_config))
   \<and> no_heartbeat pushed_index"
proof -
  have f: "service_uuid demo_config \<noteq> None" "write_uuid demo_config \<noteq> None"
    "push_packet_hex demo_config \<noteq> None" "notify_uuid demo_config \<noteq> None"
    by (simp_all add: demo_config_def)
  note T = notify_uuid_and_heartbeat
  from T [of demo_config demo_ble dropped_part0 None "projr (constructor_index demo_config)" demo_ops] f
  have a: "\<not> isl (constructor_part0 demo_config)"
    "no_heartbeat (projr (constructor_part0 demo_config))"
    "heartbeat_follows_notify demo_ble dropped_part0"
    "no_heartbeat pushed_index"
    unfolding pushed_index_def using demo_constructed by blast+
  from T [of demo_config no_notify_ble dropped_part0 None "projr (constructor_index demo_config)" demo_ops]
  have b: "heartbeat_follows_notify no_notify_ble dropped_part0" by blast
  from a(3) dropped_link_resolves
  have c: "heartbeat_started dropped_part0 (state_of (connectDevice_part0 demo_ble dropped_part0))"
    unfolding heartbeat_follows_notify_def Let_def by simp
  from b dropped_link_resolves
  have d: "isConnected (state_of (connectDevice_part0 no_notify_ble dropped_part0))"
    "intervals (state_of (connectDevice_part0 no_notify_ble dropped_part0)) = intervals dropped_part0"
    unfolding heartbeat_follows_notify_def Let_def by simp_all
  from f a c d dropped_link_resolves demo_constructed show ?thesis by blast
qed

end
